theory Spec2Isabelle
  imports Complex_Main
begin

section \<open>The web application of the spaceship generator (webapp.py)\<close>

text \<open>
  A shallow embedding of the state-changing part of
  \<^verbatim>\<open>pcgsepy/guis/main_webapp/webapp.py\<close>. Python names that start with an
  underscore lose it: \<^verbatim>\<open>_switch\<close> is \<open>switch\<close>, \<^verbatim>\<open>_apply_step\<close> is
  \<open>apply_step\<close>, and a handler \<^verbatim>\<open>__name\<close> of the trigger table is \<open>cb_name\<close>.
\<close>

subsection \<open>Bin indices\<close>

type_synonym bin_idx = "int \<times> int"

text \<open>\<^verbatim>\<open>_switch\<close>: \<^verbatim>\<open>[(e[1], e[0]) for e in ls]\<close>.\<close>

definition switch :: "bin_idx list \<Rightarrow> bin_idx list" where
  "switch ls = map (\<lambda>e. (snd e, fst e)) ls"

subsection \<open>Python values shared by the model\<close>

text \<open>
  An exception is a value. A call that can raise returns a pair: \<open>Inl\<close> of the exception
  or \<open>Inr\<close> of the result, and the state as it was when the call ended, since what a
  Python function wrote before it raised stays written.
\<close>

datatype exn = ZeroDivisionError | IndexError | KeyError | ValueError | AttributeError
  | UnboundLocalError | InvalidGenotype
  | ExternalError string

text \<open>
  The logger \<^verbatim>\<open>logging.getLogger('webapp')\<close>: one entry for each call, the level of
  the call and the text of its message. An f-string is recorded as written in the
  source, with its braces.
\<close>

datatype level = DEBUG | INFO | WARNING | ERROR

type_synonym log_entry = "level \<times> string"

text \<open>\<^verbatim>\<open>Vec\<close>, a colour with three float components.\<close>

type_synonym color = "real \<times> real \<times> real"

text \<open>The population names \<^verbatim>\<open>'feasible'\<close> and \<^verbatim>\<open>'infeasible'\<close>.\<close>

datatype population = Feasible | Infeasible

text \<open>\<^verbatim>\<open>'feasible' if kwargs['pop_name'] == 'Feasible' else 'infeasible'\<close>.\<close>

definition pop_of_name :: "string \<Rightarrow> population" where
  "pop_of_name pop_name = (if pop_name = ''Feasible'' then Feasible else Infeasible)"

subsection \<open>Candidates, bins and the archive\<close>

text \<open>
  Modelled from the spec: the class \<^verbatim>\<open>Structure\<close> (pcgsepy.structure) is not under
  src/. The phenotype is the result of the external \<^verbatim>\<open>realize(genotype, seed)\<close>; the
  record keeps what the web application reads and writes of it: the low-level string it
  was realized from, the colour last given to it by \<^verbatim>\<open>set_color\<close> (\<open>None\<close> before
  the first call), whether \<^verbatim>\<open>add_external_hull\<close> has run on it, and whether its
  \<^verbatim>\<open>_air_gridmask\<close> has been set to \<^verbatim>\<open>None\<close>.
\<close>

record phenotype =
  built_from :: string
  s_color :: "color option"
  has_hull :: bool
  air_gridmask_reset :: bool

text \<open>
  Modelled from the spec: the class \<^verbatim>\<open>CandidateSolution\<close> (pcgsepy.lsystem.solution) is
  not under src/. Its fields are those of the spec's Candidate: genotype (\<^verbatim>\<open>string\<close>,
  and the low-level string \<^verbatim>\<open>ll_string\<close> expanded from it), cached phenotype
  (\<^verbatim>\<open>_content\<close>, \<open>None\<close> when absent), fitness vector, behaviour descriptors,
  feasibility flag, age and display colour.
\<close>

record candidate =
  cs_string :: string
  ll_string :: string
  content :: "phenotype option"
  base_color :: color
  is_feasible :: bool
  c_fitness :: "real list"
  b_descs :: "real \<times> real"
  age :: int

text \<open>
  Modelled from the spec: the class \<^verbatim>\<open>MAPBin\<close> (pcgsepy.mapelites.bin) is not under
  src/. A bin has its grid coordinate, the two populations \<^verbatim>\<open>_feasible\<close> and
  \<^verbatim>\<open>_infeasible\<close>, and the flags \<^verbatim>\<open>new_elite[population]\<close>.
\<close>

record mapbin =
  bin_idx :: bin_idx
  feasible :: "candidate list"
  infeasible :: "candidate list"
  new_elite :: "population \<Rightarrow> bool"

definition members :: "mapbin \<Rightarrow> population \<Rightarrow> candidate list" where
  "members b pop = (case pop of Feasible \<Rightarrow> feasible b | Infeasible \<Rightarrow> infeasible b)"

definition set_members :: "population \<Rightarrow> candidate list \<Rightarrow> mapbin \<Rightarrow> mapbin" where
  "set_members pop cs b =
     (case pop of Feasible \<Rightarrow> b\<lparr>feasible := cs\<rparr> | Infeasible \<Rightarrow> b\<lparr>infeasible := cs\<rparr>)"

text \<open>
  Modelled from the spec: \<^verbatim>\<open>MAPBin.non_empty(pop)\<close> is not under src/; a population is
  non-empty when it holds a candidate.
\<close>

definition non_empty :: "mapbin \<Rightarrow> population \<Rightarrow> bool" where
  "non_empty b pop = (members b pop \<noteq> [])"

text \<open>The emitter classes imported from pcgsepy.mapelites.emitters.\<close>

datatype emitter_class = ContextualBanditEmitter | GreedyEmitter | HumanEmitter
  | HumanPrefMatrixEmitter | KNEmitter | KernelEmitter | PreferenceBanditEmitter
  | RandomEmitter | SimpleTabularEmitter

text \<open>
  An emitter instance: its class and its internal data (bandit statistics, preference
  matrix, constructor arguments), \<open>None\<close> for an instance as the constructor with no
  argument returns it.
\<close>

datatype 'x emitter = Emitter (e_class: emitter_class) (e_data: "'x option")

text \<open>\<^verbatim>\<open>HullBuilder\<close>: the attributes the web application reads and writes.\<close>

record hull_builder =
  erosion_type :: string
  apply_erosion :: bool
  apply_smoothing :: bool

text \<open>
  Modelled from the spec: the class \<^verbatim>\<open>MAPElites\<close> (pcgsepy.mapelites.map) is not under
  src/. \<open>bins\<close> is the two-dimensional array of bins as a list of rows;
  \<open>internals\<close> is everything else the archive owns (L-system, buffer, estimator,
  descriptors, fitness weights).
\<close>

record 'x mapelites =
  bins :: "mapbin list list"
  enforce_qnt :: bool
  emitter :: "'x emitter"
  n_new_solutions :: int
  hull_builder :: "hull_builder option"
  internals :: 'x

text \<open>
  Indexing a numpy array with a pair, \<^verbatim>\<open>bins[i, j]\<close>: a negative index counts from the
  end, an index out of range raises IndexError.
\<close>

definition py_index :: "'a list \<Rightarrow> int \<Rightarrow> nat option" where
  "py_index xs i =
     (let n = int (length xs); k = (if i < 0 then n + i else i)
      in if 0 \<le> k \<and> k < n then Some (nat k) else None)"

definition bin_at :: "mapbin list list \<Rightarrow> bin_idx \<Rightarrow> mapbin option" where
  "bin_at bs ij =
     (case py_index bs (fst ij) of
        None \<Rightarrow> None
      | Some r \<Rightarrow> (case py_index (bs ! r) (snd ij) of
                     None \<Rightarrow> None
                   | Some c \<Rightarrow> Some (bs ! r ! c)))"

definition set_bin_at :: "bin_idx \<Rightarrow> mapbin \<Rightarrow> mapbin list list \<Rightarrow> mapbin list list" where
  "set_bin_at ij b bs =
     (case py_index bs (fst ij) of
        None \<Rightarrow> bs
      | Some r \<Rightarrow> (case py_index (bs ! r) (snd ij) of
                     None \<Rightarrow> bs
                   | Some c \<Rightarrow> bs[r := (bs ! r)[c := b]]))"


subsection \<open>The state of the application\<close>

text \<open>
  Modelled from the spec: the class \<^verbatim>\<open>Semaphore\<close> (pcgsepy.guis.utils) is not under
  src/. It is the binary lock of the spec: \<^verbatim>\<open>lock(name)\<close> takes it, \<^verbatim>\<open>unlock()\<close>
  releases it, \<^verbatim>\<open>is_locked\<close> reads it; \<^verbatim>\<open>_running\<close> is the attribute that
  \<^verbatim>\<open>write_archive\<close> sets.
\<close>

record semaphore =
  is_locked :: bool
  lock_name :: "string option"
  running :: string

definition lock :: "string option \<Rightarrow> semaphore \<Rightarrow> semaphore" where
  "lock name s = s\<lparr>is_locked := True, lock_name := name\<rparr>"

definition unlock :: "semaphore \<Rightarrow> semaphore" where
  "unlock s = s\<lparr>is_locked := False\<rparr>"

datatype app_mode = DEV | USER | OTHER_MODE

text \<open>
  The module's mutable state: the fields of \<^verbatim>\<open>app_settings\<close> that the modelled
  functions use, the globals \<^verbatim>\<open>base_color\<close>, \<^verbatim>\<open>first_launch\<close>,
  \<^verbatim>\<open>process_semaphore\<close> and \<^verbatim>\<open>download_semaphore\<close>, and the log.
  \<open>step_progress\<close> is a Python float, taken here as a real number.
\<close>

record 'x app =
  current_mapelites :: "'x mapelites"
  selected_bins :: "bin_idx list"
  gen_counter :: int
  emitter_steps :: int
  step_progress :: real
  symmetry :: "string option"
  app_mode :: app_mode
  voxelised :: bool
  safe_mode :: bool
  global_base_color :: color
  first_launch :: bool
  process_semaphore :: semaphore
  download_semaphore :: semaphore
  log :: "log_entry list"

definition logger :: "level \<Rightarrow> string \<Rightarrow> 'x app \<Rightarrow> 'x app" where
  "logger l msg st = st\<lparr>log := log st @ [(l, msg)]\<rparr>"

definition on_archive :: "('x mapelites \<Rightarrow> 'x mapelites) \<Rightarrow> 'x app \<Rightarrow> 'x app" where
  "on_archive f st = st\<lparr>current_mapelites := f (current_mapelites st)\<rparr>"

text \<open>\<^verbatim>\<open>app_settings.step_progress += perc_step\<close>.\<close>

definition add_progress :: "real \<Rightarrow> 'x app \<Rightarrow> 'x app" where
  "add_progress perc_step st = st\<lparr>step_progress := step_progress st + perc_step\<rparr>"

subsection \<open>External collaborators\<close>

text \<open>
  The methods of the archive, of its bins and of the L-system that the web application
  calls and that are not under src/ are parameters of the model, collected in one
  record. Each is taken as returning: a handler that raises is the subject of
  \<open>general_callback\<close> below.
  \<^item> \<open>valid_bins\<close>: \<^verbatim>\<open>MAPElites._valid_bins()\<close>;
  \<^item> \<open>update_elites\<close>: \<^verbatim>\<open>MAPElites.update_elites(reset)\<close>;
  \<^item> \<open>interactive_step\<close>: \<^verbatim>\<open>MAPElites.interactive_step(bin_idxs, gen)\<close>;
  \<^item> \<open>emitter_step\<close>: \<^verbatim>\<open>MAPElites.emitter_step(gen)\<close>;
  \<^item> \<open>elite_index\<close>: the position, in a population, of the candidate that
    \<^verbatim>\<open>MAPBin.get_elite\<close> returns;
  \<^item> \<open>prepare_cs_content\<close>: \<^verbatim>\<open>MAPElites._prepare_cs_content(cs)\<close>;
  \<^item> \<open>enforce_symmetry\<close>: \<^verbatim>\<open>enforce_symmetry(string, axis)\<close> of pcgsepy.hullbuilder;
  \<^item> \<open>expand\<close>: the low-level string that \<^verbatim>\<open>LSystem._add_ll_strings\<close> derives from
    the string of a candidate;
  \<^item> \<open>realizable\<close>: whether \<^verbatim>\<open>LSystem._set_structure\<close> can build the structure of
    a low-level string; where it cannot, the call raises;
  \<^item> \<open>build_pref_matrix\<close>: \<^verbatim>\<open>HumanPrefMatrixEmitter._build_pref_matrix(bins)\<close>;
  \<^item> \<open>reset\<close>: \<^verbatim>\<open>MAPElites.reset()\<close>;
  \<^item> \<open>subdivide_range\<close>: \<^verbatim>\<open>MAPElites.subdivide_range(bin_idx)\<close>;
  \<^item> \<open>load_population\<close>: \<^verbatim>\<open>MAPElites.load_population(filename)\<close>;
  \<^item> \<open>use_ruleset\<close>: the internals of the archive once the rules that
    \<^verbatim>\<open>RuleMaker(ruleset).get_rules()\<close> returns are assigned to the parser of its
    L-system, \<open>None\<close> when the call raises AssertionError;
  \<^item> \<open>hex_int\<close>: Python's \<^verbatim>\<open>int(s, 16)\<close>;
  \<^item> \<open>literal_eval_type\<close>: \<^verbatim>\<open>ast.literal_eval(event_trig)['type']\<close>, the value or
    the exception;
  \<^item> \<open>bin_label\<close>: the text \<^verbatim>\<open>f' {(i, j)} [{bc1}:{bc2}];'\<close> that \<^verbatim>\<open>_format_bins\<close>
    writes for the bin at \<^verbatim>\<open>(i, j)\<close>, from the sizes of the bins before it.
\<close>

record 'x ext =
  valid_bins :: "'x mapelites \<Rightarrow> mapbin list"
  update_elites :: "bool \<Rightarrow> 'x mapelites \<Rightarrow> 'x mapelites"
  interactive_step :: "bin_idx list \<Rightarrow> int \<Rightarrow> 'x mapelites \<Rightarrow> 'x mapelites"
  emitter_step :: "int \<Rightarrow> 'x mapelites \<Rightarrow> 'x mapelites"
  elite_index :: "candidate list \<Rightarrow> nat"
  prepare_cs_content :: "'x mapelites \<Rightarrow> candidate \<Rightarrow> candidate"
  enforce_symmetry :: "string \<Rightarrow> string \<Rightarrow> string"
  expand :: "string \<Rightarrow> string"
  realizable :: "string \<Rightarrow> bool"
  build_pref_matrix :: "mapbin list list \<Rightarrow> 'x emitter \<Rightarrow> 'x emitter"
  reset :: "'x mapelites \<Rightarrow> 'x mapelites"
  subdivide_range :: "bin_idx \<Rightarrow> 'x mapelites \<Rightarrow> 'x mapelites"
  load_population :: "string \<Rightarrow> 'x mapelites \<Rightarrow> 'x mapelites"
  use_ruleset :: "string \<Rightarrow> 'x \<Rightarrow> 'x option"
  hex_int :: "string \<Rightarrow> exn + int"
  literal_eval_type :: "string \<Rightarrow> exn + string"
  bin_label :: "'x mapelites \<Rightarrow> bin_idx \<Rightarrow> string"

text \<open>
  Modelled from the spec: \<^verbatim>\<open>LSystem._add_ll_strings\<close> and \<^verbatim>\<open>LSystem._set_structure\<close>
  are not under src/. The first derives the low-level string from the string of the
  candidate. The second is the spec's \<^verbatim>\<open>realize(genotype, seed) -> phenotype |
  Fails(InvalidGenotype)\<close>: it builds the phenotype of the candidate from its low-level
  string, stores it in \<^verbatim>\<open>_content\<close> and returns the candidate it was given, or it
  raises and leaves the candidate as it was. \<open>with_structure cs\<close> is the candidate
  with the phenotype of its low-level string, as first built.
\<close>

definition add_ll_strings :: "'x ext \<Rightarrow> candidate \<Rightarrow> candidate" where
  "add_ll_strings X cs = cs\<lparr>ll_string := expand X (cs_string cs)\<rparr>"

definition with_structure :: "candidate \<Rightarrow> candidate" where
  "with_structure cs =
     cs\<lparr>content := Some \<lparr>built_from = ll_string cs, s_color = None,
                          has_hull = False, air_gridmask_reset = False\<rparr>\<rparr>"

definition set_structure :: "'x ext \<Rightarrow> candidate \<Rightarrow> exn + candidate" where
  "set_structure X cs =
     (if realizable X (ll_string cs) then Inr (with_structure cs) else Inl InvalidGenotype)"

text \<open>
  \<^verbatim>\<open>b.get_elite(population=pop)\<close>, as the position of the elite in the population; an
  empty population has no elite and a position outside the population cannot be read.
\<close>

definition get_elite_pos :: "'x ext \<Rightarrow> candidate list \<Rightarrow> exn + nat" where
  "get_elite_pos X cs =
     (if cs \<noteq> [] \<and> elite_index X cs < length cs then Inr (elite_index X cs)
      else Inl IndexError)"

subsection \<open>One generation step: \<^verbatim>\<open>_apply_step\<close>\<close>

text \<open>
  A loop whose body can raise: \<open>each f xs\<close> runs \<open>f\<close> on the elements from left to
  right and stops at the first exception; what was written until then stays written.
\<close>

fun each :: "('a \<Rightarrow> exn option \<times> 'a) \<Rightarrow> 'a list \<Rightarrow> exn option \<times> 'a list" where
  "each f [] = (None, [])"
| "each f (x # xs) =
     (case f x of
        (Some e, y) \<Rightarrow> (Some e, y # xs)
      | (None, y) \<Rightarrow> (case each f xs of (r, ys) \<Rightarrow> (r, y # ys)))"

text \<open>
  The last loop of \<^verbatim>\<open>_apply_step\<close>, for one population of one bin:
  \<^verbatim>\<open>if b.non_empty(pop=pop): e = b.get_elite(population=pop); if e._content is None: ...\<close>.
\<close>

definition refresh_pop :: "'x ext \<Rightarrow> 'x mapelites \<Rightarrow> candidate list \<Rightarrow> exn option \<times> candidate list" where
  "refresh_pop X m cs =
     (if cs = [] then (None, cs)
      else case get_elite_pos X cs of
             Inl e \<Rightarrow> (Some e, cs)
           | Inr k \<Rightarrow>
               (if content (cs ! k) = None
                then (case set_structure X (cs ! k) of
                        Inl e \<Rightarrow> (Some e, cs)
                      | Inr e' \<Rightarrow> (None, cs[k := prepare_cs_content X m e']))
                else (None, cs)))"

definition refresh_bin :: "'x ext \<Rightarrow> 'x mapelites \<Rightarrow> mapbin \<Rightarrow> exn option \<times> mapbin" where
  "refresh_bin X m b =
     (case refresh_pop X m (feasible b) of
        (Some e, f) \<Rightarrow> (Some e, b\<lparr>feasible := f\<rparr>)
      | (None, f) \<Rightarrow>
          (case refresh_pop X m (infeasible b) of
             (r, i) \<Rightarrow> (r, b\<lparr>feasible := f, infeasible := i\<rparr>)))"

definition refresh_bins :: "'x ext \<Rightarrow> 'x mapelites \<Rightarrow> exn option \<times> mapbin list list" where
  "refresh_bins X m = each (each (refresh_bin X m)) (bins m)"

text \<open>
  The test of the selection:
  \<^verbatim>\<open>valid = True; if mapelites.enforce_qnt: for bin_idx in selected_bins: valid &= bin_idx in valid_bins\<close>.
\<close>

definition selection_valid :: "'x ext \<Rightarrow> 'x mapelites \<Rightarrow> bin_idx list \<Rightarrow> bool" where
  "selection_valid X m selected =
     (if enforce_qnt m
      then foldl (\<lambda>valid b. valid \<and> b \<in> set (map bin_idx (valid_bins X m))) True selected
      else True)"

text \<open>One pass of the emitter loop: \<^verbatim>\<open>mapelites.emitter_step(gen=gen_counter)\<close>, then the progress.\<close>

definition emitter_iteration :: "'x ext \<Rightarrow> int \<Rightarrow> real \<Rightarrow> 'x app \<Rightarrow> 'x app" where
  "emitter_iteration X gen perc_step st =
     add_progress perc_step (on_archive (emitter_step X gen) st)"

text \<open>
  The branch \<^verbatim>\<open>if valid:\<close> of \<^verbatim>\<open>_apply_step\<close>, statement by statement, in two
  parts: \<open>step_phases\<close> runs from the first message to the second
  \<^verbatim>\<open>mapelites.update_elites()\<close>, \<open>step_body\<close> adds the loop that gives a
  phenotype to the elites that have none.
\<close>

definition step_phases ::
  "'x ext \<Rightarrow> bin_idx list \<Rightarrow> int \<Rightarrow> bool \<Rightarrow> real \<Rightarrow> 'x app \<Rightarrow> 'x app" where
  "step_phases X selected gen only_emitter perc_step st0 =
     (let st1 = logger INFO ''Started step {gen_counter + 1}...'' st0;
          st2 = on_archive (update_elites X True) st1;
          st3 = st2\<lparr>step_progress := 0\<rparr>;
          st4 = (if \<not> only_emitter
                 then on_archive (interactive_step X selected gen)
                        (logger DEBUG ''[{__name__}._apply_step] human; {selected_bins=}'' st3)
                 else st3);
          st5 = add_progress perc_step st4;
          st6 = logger INFO ''Completed step {gen_counter + 1} (created {mapelites.n_new_solutions} solutions); running {app_settings.emitter_steps} additional emitter steps if available...'' st5;
          st7 = on_archive (\<lambda>m. m\<lparr>n_new_solutions := 0\<rparr>) st6;
          tmp_emitter = emitter (current_mapelites st7);
          st8 = (if only_emitter
                 then on_archive (\<lambda>m. m\<lparr>emitter := Emitter RandomEmitter None\<rparr>) st7
                 else st7);
          st9 = (emitter_iteration X gen perc_step ^^ nat (emitter_steps st8)) st8;
          st10 = (if only_emitter
                  then on_archive (\<lambda>m. m\<lparr>emitter := tmp_emitter\<rparr>) st9
                  else st9);
          st11 = logger INFO ''Emitter step(s) completed (created {mapelites.n_new_solutions} solutions).'' st10;
          st12 = on_archive (\<lambda>m. m\<lparr>n_new_solutions := 0\<rparr>) st11;
          st13 = logger DEBUG ''[{__name__}._apply_step] Started updating elites and reassigning content if needed...'' st12
      in on_archive (update_elites X False) st13)"

definition step_body ::
  "'x ext \<Rightarrow> bin_idx list \<Rightarrow> int \<Rightarrow> bool \<Rightarrow> real \<Rightarrow> 'x app \<Rightarrow> (exn + bool) \<times> 'x app" where
  "step_body X selected gen only_emitter perc_step st0 =
     (let st14 = step_phases X selected gen only_emitter perc_step st0
      in case refresh_bins X (current_mapelites st14) of
           (Some e, bs) \<Rightarrow> (Inl e, on_archive (\<lambda>m. m\<lparr>bins := bs\<rparr>) st14)
         | (None, bs) \<Rightarrow>
             (Inr True, (on_archive (\<lambda>m. m\<lparr>bins := bs\<rparr>) st14)\<lparr>step_progress := - 1\<rparr>))"

text \<open>
  \<^verbatim>\<open>_apply_step(mapelites, selected_bins, gen_counter, only_emitter)\<close>. Its callers pass
  \<^verbatim>\<open>app_settings.current_mapelites\<close> as \<^verbatim>\<open>mapelites\<close>, the archive of the state.
  The first statement, \<^verbatim>\<open>perc_step = 100 / (1 + app_settings.emitter_steps)\<close>, raises
  ZeroDivisionError when the iteration count is -1.
\<close>

definition apply_step ::
  "'x ext \<Rightarrow> bin_idx list \<Rightarrow> int \<Rightarrow> bool \<Rightarrow> 'x app \<Rightarrow> (exn + bool) \<times> 'x app" where
  "apply_step X selected gen only_emitter st =
     (if 1 + emitter_steps st = 0 then (Inl ZeroDivisionError, st)
      else
        let perc_step = 100 / real_of_int (1 + emitter_steps st)
        in if selection_valid X (current_mapelites st) selected
           then step_body X selected gen only_emitter perc_step st
           else (Inr False, logger INFO ''Step not applied: invalid bin(s) selected.'' st))"

subsection \<open>The preview of an elite: \<^verbatim>\<open>_get_elite_content\<close>\<close>

text \<open>
  What \<^verbatim>\<open>_get_elite_content\<close> does to the elite when a symmetry axis is set (the
  branch \<^verbatim>\<open>if app_settings.symmetry is not None:\<close>), statement by statement: the
  exception, if \<^verbatim>\<open>_set_structure\<close> raises, and the elite as the branch leaves it.
  The branch has no \<^verbatim>\<open>try\<close>: when \<^verbatim>\<open>_set_structure\<close> raises, the elite keeps the
  symmetry-enforced string and has no phenotype.
\<close>

definition symmetric_preview ::
  "'x ext \<Rightarrow> 'x mapelites \<Rightarrow> string \<Rightarrow> candidate \<Rightarrow> exn option \<times> candidate" where
  "symmetric_preview X m axis elite =
     (let original_string = cs_string elite;
          e1 = elite\<lparr>content := None\<rparr>;
          e2 = e1\<lparr>cs_string := enforce_symmetry X (cs_string e1) axis\<rparr>;
          e2' = add_ll_strings X e2
      in case set_structure X e2' of
           Inl e \<Rightarrow> (Some e, e2')
         | Inr e3 \<Rightarrow>
             (let e4 = e3\<lparr>content := map_option (\<lambda>p. p\<lparr>air_gridmask_reset := True\<rparr>) (content e3)\<rparr>;
                  e5 = (if is_feasible e4 \<and> hull_builder m \<noteq> None
                        then e4\<lparr>content := map_option (\<lambda>p. p\<lparr>has_hull := True\<rparr>) (content e4)\<rparr>
                        else e4);
                  e6 = e5\<lparr>cs_string := original_string\<rparr>
              in (None,
                  e6\<lparr>content := map_option (\<lambda>p. p\<lparr>s_color := Some (base_color e6)\<rparr>)
                                   (content e6)\<rparr>)))"

text \<open>
  Modelled from the spec: \<^verbatim>\<open>get_elite(mapelites, bin_idx, pop)\<close> (pcgsepy.mapelites.map)
  is not under src/; it is the elite of the population \<open>pop\<close> of the bin at
  \<open>bin_idx\<close>. \<open>elite_ref\<close> gives the bin and the position of the elite in its
  population.
\<close>

definition elite_ref :: "'x ext \<Rightarrow> 'x mapelites \<Rightarrow> bin_idx \<Rightarrow> population \<Rightarrow> exn + mapbin \<times> nat" where
  "elite_ref X m ij pop =
     (case bin_at (bins m) ij of
        None \<Rightarrow> Inl IndexError
      | Some b \<Rightarrow> (case get_elite_pos X (members b pop) of
                     Inl e \<Rightarrow> Inl e
                   | Inr k \<Rightarrow> Inr (b, k)))"

text \<open>Writing to the candidate at position \<open>k\<close> of the population \<open>pop\<close> of the bin at \<open>ij\<close>.\<close>

definition update_candidate ::
  "bin_idx \<Rightarrow> population \<Rightarrow> nat \<Rightarrow> (candidate \<Rightarrow> candidate) \<Rightarrow> 'x mapelites \<Rightarrow> 'x mapelites" where
  "update_candidate ij pop k f m =
     (case bin_at (bins m) ij of
        None \<Rightarrow> m
      | Some b \<Rightarrow>
          m\<lparr>bins := set_bin_at ij
                      (set_members pop ((members b pop)[k := f (members b pop ! k)]) b)
                      (bins m)\<rparr>)"

text \<open>
  After the branch on the symmetry, \<^verbatim>\<open>structure = elite.content\<close> and
  \<^verbatim>\<open>structure.as_grid_array\<close> read the phenotype of the elite with no test: for an
  elite whose \<^verbatim>\<open>_content\<close> is \<^verbatim>\<open>None\<close> the read raises AttributeError.
\<close>

definition read_content :: "candidate \<Rightarrow> exn option" where
  "read_content elite = (if content elite = None then Some AttributeError else None)"

text \<open>
  \<^verbatim>\<open>_get_elite_content(mapelites, bin_idx, pop, camera, show_voxel)\<close>, as its effect on
  the state and the exception it raises, if any. With \<^verbatim>\<open>bin_idx=None\<close> it builds
  an empty figure. Otherwise it takes the elite, runs the branch on the symmetry, which
  writes to the elite of the archive, and reads the phenotype of the elite; the figure
  it then draws from that phenotype is a display value.
\<close>

definition get_elite_content ::
  "'x ext \<Rightarrow> bin_idx option \<Rightarrow> population \<Rightarrow> 'x app \<Rightarrow> exn option \<times> 'x app" where
  "get_elite_content X idx pop st =
     (case idx of
        None \<Rightarrow> (None, st)
      | Some ij \<Rightarrow>
          (case elite_ref X (current_mapelites st) ij pop of
             Inl e \<Rightarrow> (Some e, st)
           | Inr (b, k) \<Rightarrow>
               (case symmetry st of
                  None \<Rightarrow> (read_content (members b pop ! k), st)
                | Some axis \<Rightarrow>
                    (case symmetric_preview X (current_mapelites st) axis (members b pop ! k) of
                       (r, elite) \<Rightarrow>
                         (let st1 = on_archive (update_candidate ij pop k (\<lambda>c. elite)) st
                          in case r of
                               Some e \<Rightarrow> (Some e, st1)
                             | None \<Rightarrow> (read_content elite, st1))))))"

subsection \<open>The handler of the step buttons: \<^verbatim>\<open>__apply_step\<close>\<close>

text \<open>
  Modelled from the spec: the table \<^verbatim>\<open>app_settings.hm_callback_props['pop']\<close> is not
  under src/; it maps the labels of the population dropdown to the population names.
\<close>

definition hm_callback_pop :: "string \<Rightarrow> population option" where
  "hm_callback_pop pop_name =
     (if pop_name = ''Feasible'' then Some Feasible
      else if pop_name = ''Infeasible'' then Some Infeasible
      else None)"

text \<open>
  After a step, the selected bins that are no longer valid are removed: the source
  collects their positions and pops them from the last to the first, which keeps the
  others in their order.
\<close>

definition prune_selection :: "'x ext \<Rightarrow> 'x mapelites \<Rightarrow> bin_idx list \<Rightarrow> bin_idx list" where
  "prune_selection X m sel =
     filter (\<lambda>b. hd (switch [b]) \<in> set (map bin_idx (valid_bins X m))) sel"

text \<open>
  The preview that follows a successful step with a selection left
  (\<^verbatim>\<open>bins[selected_bins[-1]].new_elite[...]\<close> indexes the array with the pair as the
  interface holds it, not switched). \<^verbatim>\<open>get_properties_table(cs=elite)\<close> then reads the
  phenotype of the elite that \<^verbatim>\<open>_get_elite_content\<close> has just read.
\<close>

definition preview_after_step :: "'x ext \<Rightarrow> string \<Rightarrow> 'x app \<Rightarrow> exn option \<times> 'x app" where
  "preview_after_step X pop_name st =
     (let lb = hd (switch [last (selected_bins st)])
      in case bin_at (bins (current_mapelites st)) (last (selected_bins st)) of
           None \<Rightarrow> (Some IndexError, st)
         | Some b \<Rightarrow>
             (case hm_callback_pop pop_name of
                None \<Rightarrow> (Some KeyError, st)
              | Some p \<Rightarrow>
                  (if new_elite b p
                   then get_elite_content X (Some lb) (pop_of_name pop_name) st
                   else (None, st))))"

text \<open>
  \<^verbatim>\<open>__apply_step(**kwargs)\<close>, as its effect on the state; \<open>event_trig\<close> and
  \<open>pop_name\<close> are the entries of \<^verbatim>\<open>kwargs\<close> it reads for that. The dictionary it
  returns and the heatmap it rebuilds are display values.
\<close>

definition cb_apply_step :: "'x ext \<Rightarrow> string option \<Rightarrow> string \<Rightarrow> 'x app \<Rightarrow> exn option \<times> 'x app" where
  "cb_apply_step X event_trig pop_name st =
     (if selected_bins st \<noteq> [] \<or> event_trig = Some ''rand-step-btn''
      then
        (case apply_step X (switch (selected_bins st)) (gen_counter st)
                (event_trig = Some ''rand-step-btn'' \<and> app_mode st = USER) st of
           (Inl e, st1) \<Rightarrow> (Some e, st1)
         | (Inr res, st1) \<Rightarrow>
             (if res
              then
                (let st2 = st1\<lparr>gen_counter := gen_counter st1 + 1\<rparr>;
                     r = (if selected_bins st2 \<noteq> []
                          then
                            (let st3 = st2\<lparr>selected_bins :=
                                             prune_selection X (current_mapelites st2) (selected_bins st2)\<rparr>
                             in if selected_bins st3 = [] then (None, st3)
                                else preview_after_step X pop_name st3)
                          else (None, st2))
                 in case r of
                      (Some e, st4) \<Rightarrow> (Some e, st4)
                    | (None, st4) \<Rightarrow>
                        (None, logger DEBUG ''[{__name__}.__apply_step] {elapsed=}; {new_complexity=}; {app_settings.gen_counter=}; {app_settings.selected_bins=}'' st4))
              else (None, st1)))
      else (None, logger ERROR ''Step not applied: no bin(s) selected.'' st))"

subsection \<open>The handler of the emitter menu: \<^verbatim>\<open>__emitter\<close>\<close>

text \<open>The dictionary from the identifier of the menu entry to the name of the emitter.\<close>

definition emitter_names :: "(string \<times> string) list" where
  "emitter_names =
     [(''emitter-human'', ''Human''),
      (''emitter-random'', ''Random''),
      (''emitter-greedy'', ''Greedy''),
      (''emitter-prefmatrix'', ''Preference Matrix''),
      (''emitter-prefbandit'', ''Preference Bandit''),
      (''emitter-conbandit'', ''Contextual Bandit''),
      (''emitter-knn'', ''KNN''),
      (''emitter-linkernel'', ''Linear Kernel''),
      (''emitter-rbfkernel'', ''RBF Kernel'')]"

text \<open>\<^verbatim>\<open>app_settings.current_mapelites.emitter = C()\<close>, then the message.\<close>

definition set_emitter :: "'x emitter \<Rightarrow> 'x app \<Rightarrow> 'x app" where
  "set_emitter e st =
     logger INFO ''Emitter set to {emitter_name}'' (on_archive (\<lambda>m. m\<lparr>emitter := e\<rparr>) st)"

text \<open>
  \<^verbatim>\<open>__emitter(**kwargs)\<close>, as its effect on the state: the lookup of
  \<^verbatim>\<open>kwargs['event_trig']\<close>, the statement \<^verbatim>\<open>if emitter_name == 'Random':\<close>, then the
  chain that starts again with \<^verbatim>\<open>if emitter_name == 'Greedy':\<close> and ends with the
  \<^verbatim>\<open>else:\<close> that logs an error.
\<close>

definition cb_emitter :: "'x ext \<Rightarrow> string option \<Rightarrow> 'x app \<Rightarrow> exn option \<times> 'x app" where
  "cb_emitter X event_trig st =
     (case (case event_trig of None \<Rightarrow> None | Some t \<Rightarrow> map_of emitter_names t) of
        None \<Rightarrow> (Some KeyError, st)
      | Some emitter_name \<Rightarrow>
          (let st1 = (if emitter_name = ''Random''
                      then set_emitter (Emitter RandomEmitter None) st
                      else st)
           in (None,
               if emitter_name = ''Greedy''
               then set_emitter (Emitter GreedyEmitter None) st1
               else if emitter_name = ''Preference-matrix''
               then logger INFO ''Emitter set to {emitter_name}''
                      (on_archive
                         (\<lambda>m. m\<lparr>emitter :=
                                  build_pref_matrix X (bins m) (Emitter HumanPrefMatrixEmitter None)\<rparr>)
                         st1)
               else if emitter_name = ''Contextual Bandit''
               then set_emitter (Emitter ContextualBanditEmitter None) st1
               else if emitter_name = ''Preference Bandit''
               then set_emitter (Emitter PreferenceBanditEmitter None) st1
               else if emitter_name = ''KNN''
               then set_emitter (Emitter KNEmitter None) st1
               else if emitter_name = ''Linear Kernel''
               then set_emitter (Emitter KernelEmitter None) st1
               else if emitter_name = ''Human''
               then set_emitter (Emitter HumanEmitter None) st1
               else logger ERROR ''[{__name__}.__emitter] Unrecognized {emitter_name=}'' st1)))"

subsection \<open>The phases of a step, as the specification names them\<close>

text \<open>
  The specification's reading of a step, on the archive alone, to compare with
  \<open>apply_step\<close>: clearing the flags, the human phase, the emitter phase (with the
  bookkeeping of \<^verbatim>\<open>n_new_solutions\<close> and, for an emitter-only step, the temporary
  \<^verbatim>\<open>RandomEmitter\<close>), the final update of the elites.
\<close>

definition phase_clear :: "'x ext \<Rightarrow> 'x mapelites \<Rightarrow> 'x mapelites" where
  "phase_clear X m = update_elites X True m"

definition phase_human :: "'x ext \<Rightarrow> bin_idx list \<Rightarrow> int \<Rightarrow> bool \<Rightarrow> 'x mapelites \<Rightarrow> 'x mapelites" where
  "phase_human X selected gen only_emitter m =
     (if only_emitter then m else interactive_step X selected gen m)"

definition phase_emitter :: "'x ext \<Rightarrow> int \<Rightarrow> bool \<Rightarrow> nat \<Rightarrow> 'x mapelites \<Rightarrow> 'x mapelites" where
  "phase_emitter X gen only_emitter n m =
     (let m0 = m\<lparr>n_new_solutions := 0\<rparr>;
          m1 = (if only_emitter then m0\<lparr>emitter := Emitter RandomEmitter None\<rparr> else m0);
          m2 = (emitter_step X gen ^^ n) m1;
          m3 = (if only_emitter then m2\<lparr>emitter := emitter m0\<rparr> else m2)
      in m3\<lparr>n_new_solutions := 0\<rparr>)"

definition phase_final :: "'x ext \<Rightarrow> 'x mapelites \<Rightarrow> 'x mapelites" where
  "phase_final X m = update_elites X False m"

subsection \<open>A recording archive and a small application state\<close>

text \<open>
  An instance of the external collaborators for the concrete runs below: every method
  of the archive appends its call to \<open>internals\<close>, the valid bins are the non-empty
  ones, the elite is the first member of its population, and the symmetric form of a
  string is the string followed by its mirror image.
\<close>

datatype call = Update_elites bool | Interactive_step "bin_idx list" int
  | Emitter_step int emitter_class | Reset | Subdivide_range bin_idx
  | Load_population string | Use_ruleset string

definition recording :: "call list ext" where
  "recording =
     \<lparr>valid_bins = (\<lambda>m. filter (\<lambda>b. non_empty b Feasible \<or> non_empty b Infeasible)
                               (concat (bins m))),
      update_elites = (\<lambda>reset m. m\<lparr>internals := internals m @ [Update_elites reset]\<rparr>),
      interactive_step =
        (\<lambda>sel gen m. m\<lparr>internals := internals m @ [Interactive_step sel gen]\<rparr>),
      emitter_step =
        (\<lambda>gen m. m\<lparr>internals := internals m @ [Emitter_step gen (e_class (emitter m))]\<rparr>),
      elite_index = (\<lambda>cs. 0),
      prepare_cs_content = (\<lambda>m cs. cs),
      enforce_symmetry = (\<lambda>s axis. s @ rev s),
      expand = (\<lambda>s. s),
      realizable = (\<lambda>s. True),
      build_pref_matrix = (\<lambda>bs e. e),
      reset = (\<lambda>m. m\<lparr>internals := internals m @ [Reset]\<rparr>),
      subdivide_range = (\<lambda>ij m. m\<lparr>internals := internals m @ [Subdivide_range ij]\<rparr>),
      load_population = (\<lambda>f m. m\<lparr>internals := internals m @ [Load_population f]\<rparr>),
      use_ruleset = (\<lambda>r calls. Some (calls @ [Use_ruleset r])),
      hex_int = (\<lambda>s. if s = ''80'' then Inr 128 else Inl ValueError),
      literal_eval_type = (\<lambda>s. Inl ValueError),
      bin_label = (\<lambda>m ij. '' bin;'')\<rparr>"

text \<open>
  The same collaborators with an L-system that can build the structure of a low-level
  string of one symbol at most.
\<close>

definition strict :: "call list ext" where
  "strict = recording\<lparr>realizable := (\<lambda>s. length s \<le> 1)\<rparr>"

definition cand :: "string \<Rightarrow> candidate" where
  "cand s = \<lparr>cs_string = s, ll_string = s, content = None, base_color = (0, 0, 0),
             is_feasible = True, c_fitness = [1], b_descs = (0, 0), age = 0\<rparr>"

definition bin_of :: "bin_idx \<Rightarrow> candidate list \<Rightarrow> mapbin" where
  "bin_of ij cs = \<lparr>bin_idx = ij, feasible = cs, infeasible = [], new_elite = (\<lambda>p. False)\<rparr>"

text \<open>A grid of two by two bins; the bins (0, 0) and (1, 1) hold one feasible candidate each.\<close>

definition demo_archive :: "call list mapelites" where
  "demo_archive =
     \<lparr>bins = [bin_of (0, 0) [cand ''a''], bin_of (0, 1) []]
              # [bin_of (1, 0) [], bin_of (1, 1) [cand ''b'']] # [],
      enforce_qnt = True, emitter = Emitter GreedyEmitter None, n_new_solutions = 0,
      hull_builder = Some \<lparr>erosion_type = ''bin'', apply_erosion = True,
                           apply_smoothing = False\<rparr>,
      internals = []\<rparr>"

definition demo_app :: "call list app" where
  "demo_app =
     \<lparr>current_mapelites = demo_archive, selected_bins = [], gen_counter = 0,
      emitter_steps = 2, step_progress = - 1, symmetry = None, app_mode = USER,
      voxelised = False, safe_mode = True, global_base_color = (0, 0, 0),
      first_launch = False,
      process_semaphore = \<lparr>is_locked = False, lock_name = None, running = ''NO''\<rparr>,
      download_semaphore = \<lparr>is_locked = True, lock_name = None, running = ''NO''\<rparr>,
      log = []\<rparr>"

text \<open>The same state once every feasible candidate has the phenotype of its own string.\<close>

definition demo_built :: "call list app" where
  "demo_built =
     demo_app\<lparr>current_mapelites :=
       demo_archive\<lparr>bins := map (map (\<lambda>b. b\<lparr>feasible := map with_structure (feasible b)\<rparr>))
                                  (bins demo_archive)\<rparr>\<rparr>"

subsection \<open>What a step leaves alone\<close>

text \<open>
  \<open>same_settings st st'\<close>: the two states agree on everything but the archive, the
  progress of the step and the log.
\<close>

definition same_settings :: "'x app \<Rightarrow> 'x app \<Rightarrow> bool" where
  "same_settings st st' =
     (selected_bins st' = selected_bins st \<and> gen_counter st' = gen_counter st
      \<and> emitter_steps st' = emitter_steps st \<and> symmetry st' = symmetry st
      \<and> app_mode st' = app_mode st \<and> voxelised st' = voxelised st
      \<and> safe_mode st' = safe_mode st \<and> global_base_color st' = global_base_color st
      \<and> first_launch st' = first_launch st
      \<and> process_semaphore st' = process_semaphore st
      \<and> download_semaphore st' = download_semaphore st)"

subsection \<open>The general callback\<close>

text \<open>
  The handlers of \<^verbatim>\<open>triggers_map\<close>, by name, and the table itself. The key
  \<^verbatim>\<open>None\<close> is the event with no trigger.
\<close>

datatype handler = H_apply_step | H_reset | H_bc_change | H_subdivide | H_lsystem_modules
  | H_update_rules | H_update_heatmap | H_apply_symmetry | H_update_content | H_selection
  | H_clear_selection | H_emitter | H_population_download | H_population_upload
  | H_close_error | H_color | H_fitness_weights | H_show_quickstart_modal
  | H_toggle_voxelization | H_show_toggle_unsafe_mode_modal | H_toggle_unsafe_mode
  | H_default

definition triggers_map :: "(string option \<times> handler) list" where
  "triggers_map =
     [(Some ''step-btn'', H_apply_step),
      (Some ''rand-step-btn'', H_apply_step),
      (Some ''reset-btn'', H_reset),
      (Some ''bc0-Major-axis_Medium-axis'', H_bc_change),
      (Some ''bc0-Major-axis_Smallest-axis'', H_bc_change),
      (Some ''bc0-Average-Proportions'', H_bc_change),
      (Some ''bc0-Symmetry'', H_bc_change),
      (Some ''bc1-Major-axis_Medium-axis'', H_bc_change),
      (Some ''bc1-Major-axis_Smallest-axis'', H_bc_change),
      (Some ''bc1-Average-Proportions'', H_bc_change),
      (Some ''bc1-Symmetry'', H_bc_change),
      (Some ''subdivide-btn'', H_subdivide),
      (Some ''lsystem-modules'', H_lsystem_modules),
      (Some ''update-rules-btn'', H_update_rules),
      (Some ''population-feasible'', H_update_heatmap),
      (Some ''population-infeasible'', H_update_heatmap),
      (Some ''metric-fitness'', H_update_heatmap),
      (Some ''metric-age'', H_update_heatmap),
      (Some ''metric-coverage'', H_update_heatmap),
      (Some ''method-radio'', H_update_heatmap),
      (Some ''symmetry-none'', H_apply_symmetry),
      (Some ''symmetry-x'', H_apply_symmetry),
      (Some ''symmetry-z'', H_apply_symmetry),
      (Some ''heatmap-plot'', H_update_content),
      (Some ''population_dropdown'', H_update_content),
      (Some ''selection-btn'', H_selection),
      (Some ''selection-clr-btn'', H_clear_selection),
      (Some ''emitter-human'', H_emitter),
      (Some ''emitter-random'', H_emitter),
      (Some ''emitter-greedy'', H_emitter),
      (Some ''emitter-prefmatrix'', H_emitter),
      (Some ''emitter-prefbandit'', H_emitter),
      (Some ''emitter-conbandit'', H_emitter),
      (Some ''emitter-knn'', H_emitter),
      (Some ''emitter-linkernel'', H_emitter),
      (Some ''emitter-rbfkernel'', H_emitter),
      (Some ''popdownload-btn'', H_population_download),
      (Some ''popupload-data'', H_population_upload),
      (Some ''nbs-err-btn'', H_close_error),
      (Some ''color-picker-btn'', H_color),
      (Some ''fitness-sldr'', H_fitness_weights),
      (Some ''webapp-quickstart-btn'', H_show_quickstart_modal),
      (Some ''voxel-preview-toggle'', H_toggle_voxelization),
      (Some ''unsaferules-mode-toggle'', H_show_toggle_unsafe_mode_modal),
      (Some ''tsrm-y-btn'', H_toggle_unsafe_mode),
      (None, H_default)]"

text \<open>
  The arguments of the callback that the model reads. \<open>states\<close> gives, by parameter
  name, the values of the components passed as \<^verbatim>\<open>State\<close> that the model only
  hands on (figures, styles, texts); the other fields are the arguments it looks into:
  the label of the population menu, the number of traces of the current preview
  (\<^verbatim>\<open>len(curr_content['data'])\<close>), the point of \<^verbatim>\<open>clickData\<close>, the two switches, the
  colour of the picker and the name of the uploaded file.
\<close>

record 'v kwargs =
  states :: "string \<Rightarrow> 'v"
  kw_pop_name :: string
  content_data_len :: nat
  kw_click :: "int \<times> int"
  curr_voxel_display :: bool
  curr_unsafemode :: bool
  picked_color :: string
  upload_filename :: string

text \<open>
  A value returned for a component: a value received as \<^verbatim>\<open>State\<close>, a text, a truth
  value, \<^verbatim>\<open>None\<close>, \<^verbatim>\<open>dash.no_update\<close>, or the figure that
  \<^verbatim>\<open>_get_elite_content\<close> draws for the elite of a bin.
\<close>

datatype 'v out = Given 'v | Str string | Flag bool | NoneValue | No_update
  | Elite_figure bin_idx population

text \<open>The dictionary \<^verbatim>\<open>output\<close> as the callback first builds it, in the order of its keys.\<close>

definition initial_output :: "'v kwargs \<Rightarrow> (string \<times> 'v out) list" where
  "initial_output kw =
     [(''heatmap-plot.figure'', Given (states kw ''curr_heatmap'')),
      (''content-plot.figure'', Given (states kw ''curr_content'')),
      (''hl-rules.value'', Given (states kw ''rules'')),
      (''selected-bin.children'', Str []),
      (''content-string.value'', Given (states kw ''cs_string'')),
      (''spaceship-properties.children'', Given (states kw ''cs_properties'')),
      (''step-spinner.children'', Str []),
      (''download-population.data'', NoneValue),
      (''download-metrics.data'', NoneValue),
      (''population-dropdown.label'', Str (kw_pop_name kw)),
      (''metric-dropdown.label'', Given (states kw ''metric_name'')),
      (''b0-dropdown.label'', Given (states kw ''b0'')),
      (''b1-dropdown.label'', Given (states kw ''b1'')),
      (''symmetry-dropdown.label'', Given (states kw ''symm_axis'')),
      (''quickstart-usermode-modal.is_open'', Given (states kw ''qs_um_modal_show'')),
      (''nbs-err-modal.is_open'', Given (states kw ''nbs_err_modal_show'')),
      (''rand-step-btn-div.style'', Given (states kw ''rand_step_btn_style'')),
      (''reset-btn-div.style'', Given (states kw ''reset_btn_style'')),
      (''download-btn.children'', Given (states kw ''dlbtn_label'')),
      (''content-legend-div.children'', Given (states kw ''curr_legend'')),
      (''emitter-dropdown.label'', Given (states kw ''emitter_name'')),
      (''sm-modal.is_open'', Flag False),
      (''unsaferules-mode-toggle.value'', Flag (curr_unsafemode kw)),
      (''unsafemode-div.style'', Given (states kw ''curr_unsafemode_div_style'')),
      (''sm-modal-title.children'', Given (states kw ''curr_unsafemode_title'')),
      (''sm-modal-body.children'', Given (states kw ''curr_unsafemode_body'')),
      (''emitter-steps-div.style'', Given (states kw ''curr_emittersteps_style'')),
      (''symmetry-div.style'', No_update),
      (''experiment-settings-div.style'', No_update)]"

text \<open>\<^verbatim>\<open>output[k] = v\<close> on a dictionary that keeps the order of its keys.\<close>

fun assign :: "(string \<times> 'a) list \<Rightarrow> string \<Rightarrow> 'a \<Rightarrow> (string \<times> 'a) list" where
  "assign [] k v = [(k, v)]"
| "assign ((k', v') # kvs) k v = (if k' = k then (k, v) # kvs else (k', v') # assign kvs k v)"

text \<open>\<^verbatim>\<open>for k in u.keys(): output[k] = u[k]\<close>.\<close>

definition merge_output :: "(string \<times> 'a) list \<Rightarrow> (string \<times> 'a) list \<Rightarrow> (string \<times> 'a) list" where
  "merge_output output u = foldl (\<lambda>out kv. assign out (fst kv) (snd kv)) output u"

text \<open>
  \<^verbatim>\<open>_format_bins(mapelites, bins_idx_list, str_prefix, do_switch=True, filter_out_empty=True)\<close>,
  the one way it is called. It first reads \<^verbatim>\<open>mapelites.bins[j, i]\<close> for every selected
  \<^verbatim>\<open>(i, j)\<close>; then, for each of these bins in turn, it adds the label of a bin that
  holds a candidate, and for an empty bin removes the bin's own index from the selection
  if the selection contains it.
\<close>

definition format_step ::
  "'x ext \<Rightarrow> 'x mapelites \<Rightarrow> bin_idx list \<times> string \<Rightarrow> mapbin \<Rightarrow> bin_idx list \<times> string" where
  "format_step X m acc b =
     (if non_empty b Feasible \<or> non_empty b Infeasible
      then (fst acc, snd acc @ bin_label X m (snd (bin_idx b), fst (bin_idx b)))
      else if bin_idx b \<in> set (fst acc) then (remove1 (bin_idx b) (fst acc), snd acc)
      else acc)"

definition format_bins ::
  "'x ext \<Rightarrow> 'x mapelites \<Rightarrow> bin_idx list \<Rightarrow> string \<Rightarrow> exn + bin_idx list \<times> string" where
  "format_bins X m bins_idx_list str_prefix =
     (if list_ex (\<lambda>ij. bin_at (bins m) (snd ij, fst ij) = None) bins_idx_list
      then Inl IndexError
      else Inr (foldl (format_step X m) (bins_idx_list, str_prefix)
                  (map (\<lambda>ij. the (bin_at (bins m) (snd ij, fst ij))) bins_idx_list)))"

text \<open>
  The start of \<^verbatim>\<open>general_callback\<close>: the trigger of the event (\<open>None\<close> when
  \<^verbatim>\<open>ctx.triggered\<close> is empty), the first launch, which turns the event with no trigger
  into a click on the reset button, and the identifier that is not a key of the table,
  which is read as a dictionary with a \<^verbatim>\<open>'type'\<close>; of the exceptions of that reading
  only ValueError is caught.
\<close>

definition resolve_event ::
  "'x ext \<Rightarrow> string option \<Rightarrow> 'x app \<Rightarrow> (exn + string option) \<times> 'x app" where
  "resolve_event X triggered st =
     (let first = (triggered = None \<and> first_launch st);
          event_trig = (if first then Some ''reset-btn'' else triggered);
          st1 = (if first then st\<lparr>first_launch := False\<rparr> else st)
      in if event_trig \<in> set (map fst triggers_map) then (Inr event_trig, st1)
         else
           (case event_trig of
              None \<Rightarrow> (Inr event_trig, st1)
            | Some s \<Rightarrow>
                (case literal_eval_type X s of
                   Inr t \<Rightarrow> (Inr (Some t), st1)
                 | Inl e \<Rightarrow>
                     (if e = ValueError
                      then (Inr event_trig,
                            logger ERROR ''[{__name__}.general_callback] Unrecognized {event_trig=}. No operations have been applied!'' st1)
                      else (Inl e, st1)))))"

text \<open>The message that the callback logs before it looks at the lock.\<close>

definition announce :: "'x app \<Rightarrow> 'x app" where
  "announce st = logger DEBUG ''[{__name__}.general_callback] {event_trig=}; {app_settings.gen_counter=}; {app_settings.selected_bins=}; {app_settings.current_mapelites.emitter=}; {process_semaphore.is_locked=}'' st"

text \<open>\<^verbatim>\<open>process_semaphore.lock(name=event_trig)\<close> and \<^verbatim>\<open>process_semaphore.unlock()\<close>.\<close>

definition acquire :: "string option \<Rightarrow> 'x app \<Rightarrow> 'x app" where
  "acquire event_trig st = st\<lparr>process_semaphore := lock event_trig (process_semaphore st)\<rparr>"

definition release :: "'x app \<Rightarrow> 'x app" where
  "release st = st\<lparr>process_semaphore := unlock (process_semaphore st)\<rparr>"

text \<open>
  A handler takes the arguments of the callback and the event, and returns the
  dictionary of the components it updates, or raises; \<open>run\<close> gives the handler of each
  name. \<^verbatim>\<open>triggers_map[event_trig](**vars)\<close> raises KeyError for an event that is not a
  key of the table.
\<close>

type_synonym ('v, 'x) handlers =
  "handler \<Rightarrow> 'v kwargs \<Rightarrow> string option \<Rightarrow> 'x app \<Rightarrow> (exn + (string \<times> 'v out) list) \<times> 'x app"

definition dispatch ::
  "('v, 'x) handlers \<Rightarrow> 'v kwargs \<Rightarrow> string option \<Rightarrow> 'x app
     \<Rightarrow> (exn + (string \<times> 'v out) list) \<times> 'x app" where
  "dispatch run kw event_trig st =
     (case map_of triggers_map event_trig of
        None \<Rightarrow> (Inl KeyError, st)
      | Some h \<Rightarrow> run h kw event_trig st)"

text \<open>
  What follows the handler in the branch \<^verbatim>\<open>if not process_semaphore.is_locked:\<close>: the
  dictionary of the handler is merged, the selection is formatted, the preview is drawn
  when there is a selection and the current preview is empty, and the lock is released.
\<close>

definition finish_callback ::
  "'x ext \<Rightarrow> 'v kwargs \<Rightarrow> (string \<times> 'v out) list \<Rightarrow> 'x app
     \<Rightarrow> (exn + (string \<times> 'v out) list) \<times> 'x app" where
  "finish_callback X kw u st =
     (let output = merge_output (initial_output kw) u
      in case format_bins X (current_mapelites st) (selected_bins st) ''Selected bin(s):'' of
           Inl e \<Rightarrow> (Inl e, st)
         | Inr (sel, selected_bins_str) \<Rightarrow>
             (let st1 = st\<lparr>selected_bins := sel\<rparr>;
                  output1 = assign output ''selected-bin.children'' (Str selected_bins_str)
              in if selected_bins st1 \<noteq> [] \<and> content_data_len kw = 0
                 then
                   (let lb = hd (switch [last (selected_bins st1)])
                    in case get_elite_content X (Some lb) Feasible st1 of
                         (Some e, st2) \<Rightarrow> (Inl e, st2)
                       | (None, st2) \<Rightarrow>
                           (Inr (assign output1 ''content-plot.figure'' (Elite_figure lb Feasible)),
                            release st2))
                 else (Inr output1, release st1)))"

text \<open>\<^verbatim>\<open>general_callback\<close>: the outputs it returns, or the exception, and the state.\<close>

definition general_callback ::
  "'x ext \<Rightarrow> ('v, 'x) handlers \<Rightarrow> string option \<Rightarrow> 'v kwargs \<Rightarrow> 'x app
     \<Rightarrow> (exn + (string \<times> 'v out) list) \<times> 'x app" where
  "general_callback X run triggered kw st =
     (case resolve_event X triggered st of
        (Inl e, st1) \<Rightarrow> (Inl e, st1)
      | (Inr event_trig, st1) \<Rightarrow>
          (let st2 = announce st1
           in if \<not> is_locked (process_semaphore st2)
              then
                (case dispatch run kw event_trig (acquire event_trig st2) of
                   (Inl e, st3) \<Rightarrow> (Inl e, st3)
                 | (Inr u, st3) \<Rightarrow> finish_callback X kw u st3)
              else (Inr (initial_output kw), st2)))"

subsection \<open>Reading the result of the callback\<close>

text \<open>
  \<open>launch_flag_and_log_only st st'\<close>: the state \<open>st'\<close> is \<open>st\<close> but for the
  flag \<^verbatim>\<open>first_launch\<close> and the log. \<open>returned r k\<close> is the value that a result
  \<open>r\<close> of the callback gives to the component \<open>k\<close>.
\<close>

definition launch_flag_and_log_only :: "'x app \<Rightarrow> 'x app \<Rightarrow> bool" where
  "launch_flag_and_log_only st st' =
     (st' = st\<lparr>first_launch := first_launch st', log := log st'\<rparr>)"

definition returned :: "exn + (string \<times> 'v out) list \<Rightarrow> string \<Rightarrow> 'v out option" where
  "returned r k = (case r of Inl e \<Rightarrow> None | Inr output \<Rightarrow> map_of output k)"

text \<open>
  For the concrete runs: arguments of the callback, the state \<open>demo_app\<close> with the
  lock taken, a table of handlers that all return an empty dictionary and one of
  handlers that all raise.
\<close>

definition demo_kwargs :: "nat kwargs" where
  "demo_kwargs =
     \<lparr>states = (\<lambda>name. 0), kw_pop_name = ''Feasible'', content_data_len = 1,
      kw_click = (0, 0), curr_voxel_display = False, curr_unsafemode = False,
      picked_color = ''#808080'', upload_filename = ''population.json''\<rparr>"

definition demo_locked :: "call list app" where
  "demo_locked =
     demo_app\<lparr>process_semaphore := lock (Some ''step-btn'') (process_semaphore demo_app)\<rparr>"

definition quiet :: "(nat, call list) handlers" where
  "quiet h kw event_trig st = (Inr [], st)"

definition raising :: "(nat, call list) handlers" where
  "raising h kw event_trig st = (Inl (ExternalError ''raised by the handler''), st)"

subsection \<open>Recolouring: \<^verbatim>\<open>_update_base_color\<close> and \<^verbatim>\<open>__color\<close>\<close>

text \<open>
  The body of the loop of \<^verbatim>\<open>_update_base_color\<close> for one candidate:
  \<^verbatim>\<open>cs.base_color = color; if cs._content is not None: cs.content.set_color(color)\<close>.
\<close>

definition recolor :: "color \<Rightarrow> candidate \<Rightarrow> candidate" where
  "recolor color cs =
     (let cs1 = cs\<lparr>base_color := color\<rparr>
      in if content cs1 \<noteq> None
         then cs1\<lparr>content := map_option (\<lambda>p. p\<lparr>s_color := Some color\<rparr>) (content cs1)\<rparr>
         else cs1)"

text \<open>\<^verbatim>\<open>for cs in [*b._feasible, *b._infeasible]: ...\<close>, for one bin.\<close>

definition recolor_bin :: "color \<Rightarrow> mapbin \<Rightarrow> mapbin" where
  "recolor_bin color b =
     b\<lparr>feasible := map (recolor color) (feasible b),
       infeasible := map (recolor color) (infeasible b)\<rparr>"

text \<open>\<^verbatim>\<open>_update_base_color(color)\<close>, over all the bins of \<^verbatim>\<open>app_settings.current_mapelites\<close>.\<close>

definition update_base_color :: "color \<Rightarrow> 'x app \<Rightarrow> 'x app" where
  "update_base_color color st =
     on_archive (\<lambda>m. m\<lparr>bins := map (map (recolor_bin color)) (bins m)\<rparr>)
       (logger DEBUG ''[{__name__}._update_base_color] {color=}'' st)"

text \<open>
  The colour of the picker:
  \<^verbatim>\<open>r, g, b = tuple(int(color.lstrip('#')[i:i+2], 16) for i in (0, 2, 4))\<close>, then
  \<^verbatim>\<open>Vec.v3f(r, g, b).scale(1 / 256)\<close>; the components are Python floats, taken here as
  real numbers.
\<close>

definition parse_color :: "'x ext \<Rightarrow> string \<Rightarrow> exn + color" where
  "parse_color X color =
     (let s = dropWhile (\<lambda>c. c = CHR ''#'') color
      in case hex_int X (take 2 s) of
           Inl e \<Rightarrow> Inl e
         | Inr r \<Rightarrow>
             (case hex_int X (take 2 (drop 2 s)) of
                Inl e \<Rightarrow> Inl e
              | Inr g \<Rightarrow>
                  (case hex_int X (take 2 (drop 4 s)) of
                     Inl e \<Rightarrow> Inl e
                   | Inr b \<Rightarrow>
                       Inr (real_of_int r * (1 / 256), real_of_int g * (1 / 256),
                            real_of_int b * (1 / 256)))))"

text \<open>\<^verbatim>\<open>__color(**kwargs)\<close>, as its effect on the state.\<close>

definition cb_color :: "'x ext \<Rightarrow> 'v kwargs \<Rightarrow> 'x app \<Rightarrow> exn option \<times> 'x app" where
  "cb_color X kw st =
     (case parse_color X (picked_color kw) of
        Inl e \<Rightarrow> (Some e, st)
      | Inr new_color \<Rightarrow>
          (let st1 = st\<lparr>global_base_color := new_color\<rparr>;
               st2 = logger DEBUG ''[{__name__}.__color] {base_color=}'' st1;
               st3 = update_base_color (global_base_color st2) st2
           in if selected_bins st3 \<noteq> []
              then get_elite_content X (Some (hd (switch [last (selected_bins st3)])))
                     (pop_of_name (kw_pop_name kw)) st3
              else (None, st3)))"




subsection \<open>Genotype and cached phenotype\<close>

text \<open>
  The invariant of the specification: the cached phenotype of a candidate is absent, or
  it is the realization of the candidate's current string, that is, of the low-level
  string expanded from it.
\<close>

definition consistent :: "'x ext \<Rightarrow> candidate \<Rightarrow> bool" where
  "consistent X c =
     (case content c of None \<Rightarrow> True | Some p \<Rightarrow> built_from p = expand X (cs_string c))"

text \<open>
  The row and the column of the grid that a pair of indices, negative or not, denotes.
\<close>

definition bin_pos :: "mapbin list list \<Rightarrow> bin_idx \<Rightarrow> (nat \<times> nat) option" where
  "bin_pos bs ij =
     (case py_index bs (fst ij) of
        None \<Rightarrow> None
      | Some r \<Rightarrow> (case py_index (bs ! r) (snd ij) of
                     None \<Rightarrow> None
                   | Some c \<Rightarrow> Some (r, c)))"

text \<open>The candidate at position \<open>k\<close> of the population \<open>pop\<close> of the bin at \<open>ij\<close>.\<close>

definition candidate_at :: "'x mapelites \<Rightarrow> bin_idx \<Rightarrow> population \<Rightarrow> nat \<Rightarrow> candidate option" where
  "candidate_at m ij pop k =
     (case bin_at (bins m) ij of
        None \<Rightarrow> None
      | Some b \<Rightarrow> (if k < length (members b pop) then Some (members b pop ! k) else None))"

subsection \<open>Downloading the selected spaceship: \<^verbatim>\<open>download_content\<close>\<close>

text \<open>
  \<^verbatim>\<open>write_archive(bytes_io)\<close>, as its effect on the state, from the call of
  \<^verbatim>\<open>get_elite\<close> on: the thumbnail drawn before it and the blueprint written after it
  are built from the figure and from a copy of the elite. The statement
  \<^verbatim>\<open>elite.string = enforce_symmetry(string=elite.string, axis=app_settings.symmetry)\<close>
  writes to the elite of the archive; \<^verbatim>\<open>_set_structure(cs=tmp)\<close> builds the phenotype
  of the copy, which has the low-level string of the elite, and can raise;
  \<^verbatim>\<open>hull_builder.erosion_type\<close> is read from the hull builder of the archive.
\<close>

definition write_archive :: "'x ext \<Rightarrow> 'x app \<Rightarrow> exn option \<times> 'x app" where
  "write_archive X st0 =
     (let st = logger DEBUG ''[{__name__}.write_archive] Loaded and saved thumbnail.''
                 (logger DEBUG ''[{__name__}.write_archive] Converted to image...''
                    (logger DEBUG ''[{__name__}.write_archive] Updated thumbnail camera...''
                       (logger DEBUG ''[{__name__}.write_archive] Created thumbnail from plot...''
                          (logger DEBUG ''[{__name__}.write_archive] Started function, writing zip file...'' st0))))
      in if selected_bins st = [] then (Some IndexError, st)
         else
           (let lb = hd (switch [last (selected_bins st)])
            in case elite_ref X (current_mapelites st) lb Feasible of
                 Inl e \<Rightarrow> (Some e, st)
               | Inr (b, k) \<Rightarrow>
                   (let st1 = logger DEBUG ''[{__name__}.write_archive] Loaded elite solution {elite=}.'' st;
                        st2 = (case symmetry st1 of
                                 None \<Rightarrow> st1
                               | Some axis \<Rightarrow>
                                   on_archive
                                     (update_candidate lb Feasible k
                                        (\<lambda>elite. elite\<lparr>cs_string :=
                                                          enforce_symmetry X (cs_string elite) axis\<rparr>))
                                     st1);
                        st3 = logger DEBUG ''[{__name__}.write_archive] Copied threadsafe elite solution, starting hullbuilding...'' st2
                    in if \<not> realizable X (ll_string (members b Feasible ! k))
                       then (Some InvalidGenotype, st2)
                       else
                       case hull_builder (current_mapelites st3) of
                         None \<Rightarrow> (Some AttributeError, st3)
                       | Some hb \<Rightarrow>
                           (let st4 = logger DEBUG ''[{__name__}.write_archive] Added external hull, unlocking semaphore...'' st3;
                                st5 = st4\<lparr>download_semaphore :=
                                            (unlock (download_semaphore st4))\<lparr>running := ''YES''\<rparr>\<rparr>;
                                st6 = logger DEBUG ''[{__name__}.write_archive] {tmp.string=}; {tmp.content=}; {tmp.base_color=}''
                                        (logger DEBUG ''[{__name__}.write_archive] {download_semaphore.is_locked=}'' st5);
                                st7 = logger DEBUG ''[{__name__}.write_archive] Zip file completed and ready to be downloaded.''
                                        (logger DEBUG ''[{__name__}.write_archive] Created game blueprint, saving spaceship string representation...'' st6)
                            in (None, st7\<lparr>download_semaphore :=
                                            (download_semaphore st7)\<lparr>running := ''NO''\<rparr>\<rparr>)))))"

text \<open>
  \<^verbatim>\<open>download_content\<close>: with a selection it sends the bytes that \<^verbatim>\<open>write_archive\<close>
  writes, and does nothing otherwise.
\<close>

definition download_content :: "'x ext \<Rightarrow> 'x app \<Rightarrow> exn option \<times> 'x app" where
  "download_content X st =
     (if selected_bins st \<noteq> []
      then write_archive X (logger INFO ''Your selected spaceship will be downloaded shortly.'' st)
      else (None, st))"

subsection \<open>The handlers that write the selection or the quantity-enforcement flag\<close>

text \<open>
  Each handler is given as its effect on the state; the dictionary it returns and the
  figures it redraws are display values. \<^verbatim>\<open>__update_content(**kwargs)\<close> is the handler
  of a click on the heatmap at the point \<^verbatim>\<open>(i, j)\<close>. Once the selection is written,
  \<^verbatim>\<open>get_properties_table(cs=elite)\<close> reads the phenotype of the elite of the last
  selected bin, as \<^verbatim>\<open>cs.content._blocks\<close>, with no test.
\<close>

definition cb_update_content :: "'x ext \<Rightarrow> 'v kwargs \<Rightarrow> 'x app \<Rightarrow> exn option \<times> 'x app" where
  "cb_update_content X kw st =
     (let i = fst (kw_click kw); j = snd (kw_click kw); pop = pop_of_name (kw_pop_name kw)
      in case bin_at (bins (current_mapelites st)) (j, i) of
           None \<Rightarrow> (Some IndexError, st)
         | Some b \<Rightarrow>
             (if non_empty b pop
              then
                (if (j, i) \<in> set (map bin_idx (valid_bins X (current_mapelites st)))
                 then
                   (case get_elite_content X (Some (j, i)) pop st of
                      (Some e, st1) \<Rightarrow> (Some e, st1)
                    | (None, st1) \<Rightarrow>
                        (let st2 =
                               (if \<not> enforce_qnt (current_mapelites st1) \<and> selected_bins st1 \<noteq> []
                                then
                                  (if (i, j) \<notin> set (selected_bins st1)
                                   then st1\<lparr>selected_bins := selected_bins st1 @ [(i, j)]\<rparr>
                                   else st1\<lparr>selected_bins := remove1 (i, j) (selected_bins st1)\<rparr>)
                                else st1\<lparr>selected_bins := [(i, j)]\<rparr>)
                         in if length (selected_bins st2) > 0
                            then
                              (case elite_ref X (current_mapelites st2)
                                      (hd (switch [last (selected_bins st2)])) pop of
                                 Inl e \<Rightarrow> (Some e, st2)
                               | Inr (b', k) \<Rightarrow> (read_content (members b' pop ! k), st2))
                            else (None, st2)))
                 else (None, st))
              else (None, logger ERROR ''[{__name__}.__update_content] Empty bin selected: {(i, j)=}'' st)))"

text \<open>\<^verbatim>\<open>__selection(**kwargs)\<close>, the handler of the button that toggles the single bin selection.\<close>

definition cb_selection :: "'x app \<Rightarrow> 'x app" where
  "cb_selection st =
     (let st1 = on_archive (\<lambda>m. m\<lparr>enforce_qnt := \<not> enforce_qnt m\<rparr>) st;
          st2 = logger INFO ''MAP-Elites single bin selection set to {app_settings.current_mapelites.enforce_qnt}.'' st1
      in if enforce_qnt (current_mapelites st2) \<and> selected_bins st2 \<noteq> []
         then st2\<lparr>selected_bins := [last (selected_bins st2)]\<rparr>
         else st2)"

text \<open>\<^verbatim>\<open>__clear_selection(**kwargs)\<close>.\<close>

definition cb_clear_selection :: "'x app \<Rightarrow> 'x app" where
  "cb_clear_selection st = (logger INFO ''Cleared bins selection.'' st)\<lparr>selected_bins := []\<rparr>"

text \<open>\<^verbatim>\<open>__reset(**kwargs)\<close>.\<close>

definition cb_reset :: "'x ext \<Rightarrow> 'x app \<Rightarrow> 'x app" where
  "cb_reset X st =
     (let st1 = logger INFO ''Started resetting all bins (this may take a while)...'' st;
          st2 = logger INFO ''Reset completed.'' (on_archive (reset X) st1);
          st3 = st2\<lparr>gen_counter := 0, selected_bins := []\<rparr>
      in update_base_color (global_base_color st3) st3)"

text \<open>\<^verbatim>\<open>__subdivide(**kwargs)\<close>.\<close>

definition cb_subdivide :: "'x ext \<Rightarrow> 'x app \<Rightarrow> 'x app" where
  "cb_subdivide X st =
     (let bin_idxs = map (\<lambda>x. (snd x, fst x)) (selected_bins st);
          st1 = foldl (\<lambda>s ij. on_archive (subdivide_range X ij)
                               (logger DEBUG ''[{__name__}.__subdivide] Subdividing {bin_idx=}'' s))
                  st bin_idxs;
          st2 = logger INFO ''Subdivided bin(s): {app_settings.selected_bins}.'' st1
      in st2\<lparr>selected_bins := []\<rparr>)"

text \<open>
  \<^verbatim>\<open>__apply_symmetry(**kwargs)\<close>; for an event other than its three menu entries the
  variable \<^verbatim>\<open>symm_axis\<close> is not bound when the second message reads it.
\<close>

definition cb_apply_symmetry :: "string option \<Rightarrow> 'x app \<Rightarrow> exn option \<times> 'x app" where
  "cb_apply_symmetry event_trig st =
     (let st1 = logger INFO ''Updating all solutions to enforce symmetry...'' st;
          symm_axis = (if event_trig = Some ''symmetry-none'' then Some ''None''
                       else if event_trig = Some ''symmetry-x'' then Some ''X-axis''
                       else if event_trig = Some ''symmetry-z'' then Some ''Z-axis''
                       else None)
      in case symm_axis of
           None \<Rightarrow> (Some UnboundLocalError, st1)
         | Some axis \<Rightarrow>
             (let st2 = logger DEBUG ''[{__name__}.__apply_symmetry] {symm_axis=}'' st1;
                  st3 = st2\<lparr>symmetry := (if axis \<noteq> ''None''
                                          then Some (if axis = ''X-axis'' then ''x'' else ''z'')
                                          else None)\<rparr>;
                  st4 = st3\<lparr>selected_bins := []\<rparr>
              in (None, logger INFO ''Symmetry enforcement completed.'' st4)))"

text \<open>\<^verbatim>\<open>__population_upload(**kwargs)\<close>.\<close>

definition cb_population_upload :: "'x ext \<Rightarrow> 'v kwargs \<Rightarrow> 'x app \<Rightarrow> 'x app" where
  "cb_population_upload X kw st =
     (let st1 = logger INFO ''Setting population from file...'' st;
          st2 = on_archive (load_population X (upload_filename kw)) st1;
          st3 = logger INFO ''Set population from file successfully.'' st2
      in st3\<lparr>gen_counter := 0, selected_bins := []\<rparr>)"

text \<open>
  \<^verbatim>\<open>__toggle_unsafe_mode(**kwargs)\<close>;
  \<^verbatim>\<open>app_settings.current_mapelites.hull_builder.apply_smoothing = False\<close> needs a hull
  builder.
\<close>

definition cb_toggle_unsafe_mode :: "'x ext \<Rightarrow> 'v kwargs \<Rightarrow> 'x app \<Rightarrow> exn option \<times> 'x app" where
  "cb_toggle_unsafe_mode X kw st =
     (let st1 = logger DEBUG ''[{__name__}.__toggle_unsafe_mode] Current safe mode is {curr_unsafemode}''
                  (logger INFO ''Toggling safe mode to {not curr_unsafemode}'' st);
          ruleset = (if curr_unsafemode kw then ''hlrules'' else ''hlrules_sm'');
          st2 = logger DEBUG ''[{__name__}.__toggle_unsafe_mode] New HL ruleset is {ruleset}'' st1;
          st3 = (case use_ruleset X ruleset (internals (current_mapelites st2)) of
                   Some x \<Rightarrow> logger INFO ''L-system rules updated.''
                               (on_archive (\<lambda>m. m\<lparr>internals := x\<rparr>) st2)
                 | None \<Rightarrow> logger WARNING ''Failed updating L-system rules ({e}).'' st2);
          st4 = logger INFO ''Started resetting all bins (this may take a while)...'' st3
      in case hull_builder (current_mapelites st4) of
           None \<Rightarrow> (Some AttributeError, st4)
         | Some hb \<Rightarrow>
             (let st5 = on_archive (\<lambda>m. m\<lparr>hull_builder := Some (hb\<lparr>apply_smoothing := False\<rparr>)\<rparr>) st4;
                  st6 = logger INFO ''Reset completed.'' (on_archive (reset X) st5)
              in (None, st6\<lparr>gen_counter := 0, selected_bins := [],
                             safe_mode := \<not> curr_unsafemode kw\<rparr>)))"

subsection \<open>The invariant of the selection\<close>

text \<open>
  \<open>qnt_inv\<close>: with quantity-enforcement on, the selection holds at most one bin.
  \<open>keeps_qnt X\<close>: the three methods of the archive that a step calls do not write the
  flag \<^verbatim>\<open>enforce_qnt\<close>; in webapp.py only \<^verbatim>\<open>__selection\<close> writes it.
\<close>

definition qnt_inv :: "'x app \<Rightarrow> bool" where
  "qnt_inv st = (enforce_qnt (current_mapelites st) \<longrightarrow> length (selected_bins st) \<le> 1)"

definition keeps_qnt :: "'x ext \<Rightarrow> bool" where
  "keeps_qnt X =
     ((\<forall>r m. enforce_qnt (update_elites X r m) = enforce_qnt m)
      \<and> (\<forall>sel gen m. enforce_qnt (interactive_step X sel gen m) = enforce_qnt m)
      \<and> (\<forall>gen m. enforce_qnt (emitter_step X gen m) = enforce_qnt m))"

text \<open>
  For the concrete runs: the state \<open>demo_app\<close> with quantity-enforcement off and the
  two non-empty bins selected.
\<close>

definition demo_multi :: "call list app" where
  "demo_multi =
     on_archive (\<lambda>m. m\<lparr>enforce_qnt := False\<rparr>) (demo_app\<lparr>selected_bins := [(0, 0), (1, 1)]\<rparr>)"

section \<open>Properties\<close>

subsection \<open>Reading the state through the helpers\<close>

lemma archive_of [simp]:
  "current_mapelites (logger l msg st) = current_mapelites st"
  "current_mapelites (on_archive f st) = f (current_mapelites st)"
  "current_mapelites (add_progress p st) = current_mapelites st"
  by (simp_all add: logger_def on_archive_def add_progress_def)

lemma emitter_steps_of [simp]:
  "emitter_steps (logger l msg st) = emitter_steps st"
  "emitter_steps (on_archive f st) = emitter_steps st"
  "emitter_steps (add_progress p st) = emitter_steps st"
  by (simp_all add: logger_def on_archive_def add_progress_def)

lemma selection_valid_iff:
  "selection_valid X m selected =
     (enforce_qnt m \<longrightarrow> set selected \<subseteq> set (map bin_idx (valid_bins X m)))"
proof -
  have "foldl (\<lambda>valid b. valid \<and> b \<in> S) v xs = (v \<and> set xs \<subseteq> S)"
    for v xs and S :: "bin_idx set"
    by (induction xs arbitrary: v) auto
  then show ?thesis by (simp add: selection_valid_def)
qed

lemma archive_emitter_iterations:
  "current_mapelites ((emitter_iteration X gen p ^^ n) st) =
     (emitter_step X gen ^^ n) (current_mapelites st)"
  by (induction n) (simp_all add: emitter_iteration_def)

lemma step_phases_archive:
  "current_mapelites (step_phases X selected gen only_emitter p st) =
     phase_final X (phase_emitter X gen only_emitter (nat (emitter_steps st))
        (phase_human X selected gen only_emitter (phase_clear X (current_mapelites st))))"
  by (cases only_emitter)
     (simp_all add: step_phases_def Let_def archive_emitter_iterations
      phase_final_def phase_emitter_def phase_human_def phase_clear_def)


lemma step_body_True:
  assumes "step_body X selected gen only_emitter p st = (Inr True, st')"
  shows "refresh_bins X (current_mapelites (step_phases X selected gen only_emitter p st))
           = (None, bins (current_mapelites st'))
       \<and> current_mapelites st' =
           (current_mapelites (step_phases X selected gen only_emitter p st))
           \<lparr>bins := bins (current_mapelites st')\<rparr>"
proof (cases "refresh_bins X (current_mapelites (step_phases X selected gen only_emitter p st))")
  case (Pair r bs)
  with assms show ?thesis
    by (cases r) (auto simp: step_body_def Let_def on_archive_def)
qed

lemma apply_step_True:
  assumes "apply_step X selected gen only_emitter st = (Inr True, st')"
  shows "\<exists>p. step_body X selected gen only_emitter p st = (Inr True, st')"
  using assms by (auto simp: apply_step_def Let_def split: if_splits)

subsection \<open>The demonstration state\<close>

lemma demo_valid_bins:
  "map bin_idx (valid_bins recording demo_archive) = [(0, 0), (1, 1)]"
  by (simp add: recording_def demo_archive_def bin_of_def non_empty_def members_def cand_def)

lemma demo_app_fields [simp]:
  "current_mapelites demo_app = demo_archive"
  "emitter_steps demo_app = 2"
  "gen_counter demo_app = 0"
  "log demo_app = []"
  "selected_bins demo_app = []"
  "app_mode demo_app = USER"
  by (simp_all add: demo_app_def)

lemma demo_archive_fields [simp]:
  "enforce_qnt demo_archive"
  "emitter demo_archive = Emitter GreedyEmitter None"
  "internals demo_archive = []"
  by (simp_all add: demo_archive_def)


subsection \<open>Index switching\<close>

text \<open>
  C10: \<^verbatim>\<open>_switch\<close> is an involution, \<open>switch (switch ls) = ls\<close> for every list of
  pairs, and it preserves the length of the list.
\<close>

theorem switch_involution_length:
  "switch (switch ls) = ls \<and> length (switch ls) = length ls"
  by (simp add: switch_def comp_def)

subsection \<open>What a step leaves alone\<close>

lemma same_settings_refl [simp]: "same_settings st st"
  by (simp add: same_settings_def)

lemma same_settings_helpers [simp]:
  "same_settings st (logger l msg st') = same_settings st st'"
  "same_settings st (on_archive f st') = same_settings st st'"
  "same_settings st (add_progress p st') = same_settings st st'"
  "same_settings st (st'\<lparr>step_progress := q\<rparr>) = same_settings st st'"
  by (simp_all add: same_settings_def logger_def on_archive_def add_progress_def)

lemma same_settings_iterations [simp]:
  "same_settings st ((emitter_iteration X gen p ^^ n) st') = same_settings st st'"
  by (induction n) (simp_all add: emitter_iteration_def)

lemma same_settings_step_phases [simp]:
  "same_settings st (step_phases X selected gen only_emitter p st)"
  by (cases only_emitter) (simp_all add: step_phases_def Let_def)

lemma same_settings_step_body: "same_settings st (snd (step_body X selected gen only_emitter p st))"
  by (simp add: step_body_def Let_def split: prod.splits option.splits)

lemma same_settings_apply_step: "same_settings st (snd (apply_step X selected gen only_emitter st))"
  by (simp add: apply_step_def Let_def same_settings_step_body)





subsection \<open>Steps of the recording archive\<close>

lemma each_no_exn:
  "(\<And>x. x \<in> set xs \<Longrightarrow> fst (f x) = None) \<Longrightarrow> fst (each f xs) = None"
proof (induction xs)
  case Nil
  show ?case by simp
next
  case (Cons a xs)
  have "fst (f a) = None" using Cons.prems by simp
  then obtain y where fa: "f a = (None, y)" by (cases "f a") auto
  have "fst (each f xs) = None" using Cons by simp
  then obtain ys where "each f xs = (None, ys)" by (cases "each f xs") auto
  with fa show ?case by simp
qed

lemma refresh_pop_recording:
  "fst (refresh_pop recording m cs) = None"
  by (simp add: refresh_pop_def get_elite_pos_def set_structure_def recording_def)

lemma refresh_bins_recording: "fst (refresh_bins recording m) = None"
  unfolding refresh_bins_def
  by (intro each_no_exn)
     (auto simp: refresh_bin_def refresh_pop_recording split: prod.splits option.splits
        dest: arg_cong[where f=fst])

lemma step_body_recording: "fst (step_body recording sel gen oe p st) = Inr True"
  using refresh_bins_recording[of "current_mapelites (step_phases recording sel gen oe p st)"]
  by (auto simp: step_body_def Let_def split: prod.splits option.splits)

lemma apply_step_demo:
  "set sel \<subseteq> {(0, 0), (1, 1)} \<Longrightarrow> fst (apply_step recording sel gen oe demo_app) = Inr True"
  by (simp add: apply_step_def selection_valid_iff demo_valid_bins step_body_recording)

subsection \<open>Invalid selections\<close>

text \<open>
  C1, as amended. With quantity-enforcement on, a selection that contains a bin index
  that is not valid aborts the step, provided the iteration count is not -1:
  \<^verbatim>\<open>_apply_step\<close> returns \<^verbatim>\<open>False\<close> and the state it leaves differs from the one
  it found only by one more log entry, of level INFO (archive, flags, emitter and all
  counters are untouched); and \<^verbatim>\<open>__apply_step\<close>, called on that selection, leaves
  the same state, so the generation counter is unchanged.
\<close>

theorem invalid_selection_aborts_step:
  assumes "enforce_qnt (current_mapelites st)"
    and "b \<in> set selected"
    and "b \<notin> set (map bin_idx (valid_bins X (current_mapelites st)))"
    and "emitter_steps st \<noteq> - 1"
  shows "apply_step X selected gen only_emitter st =
           (Inr False,
            st\<lparr>log := log st @ [(INFO, ''Step not applied: invalid bin(s) selected.'')]\<rparr>)
       \<and> (selected = switch (selected_bins st) \<longrightarrow>
            cb_apply_step X event_trig pop_name st =
              (None,
               st\<lparr>log := log st @ [(INFO, ''Step not applied: invalid bin(s) selected.'')]\<rparr>))"
proof -
  have "\<not> selection_valid X (current_mapelites st) selected"
    using assms(1-3) by (auto simp: selection_valid_iff)
  moreover have "1 + emitter_steps st \<noteq> 0" using assms(4) by arith
  ultimately have a: "apply_step X selected gen only_emitter st =
           (Inr False,
            st\<lparr>log := log st @ [(INFO, ''Step not applied: invalid bin(s) selected.'')]\<rparr>)"
    for only_emitter gen
    by (simp add: apply_step_def logger_def)
  have "cb_apply_step X event_trig pop_name st =
          (None, st\<lparr>log := log st @ [(INFO, ''Step not applied: invalid bin(s) selected.'')]\<rparr>)"
    if sel: "selected = switch (selected_bins st)"
  proof -
    have "selected_bins st \<noteq> []"
      using sel assms(2) by (auto simp: switch_def)
    then show ?thesis
      using a [of "gen_counter st" "event_trig = Some ''rand-step-btn'' \<and> app_mode st = USER"]
      unfolding sel by (simp add: cb_apply_step_def)
  qed
  with a show ?thesis by blast
qed

theorem invalid_selection_aborts_step_witness:
  "enforce_qnt (current_mapelites (demo_app\<lparr>selected_bins := [(1, 0)]\<rparr>))
   \<and> (0, 1) \<in> set (switch [(1, 0)])
   \<and> (0, 1) \<notin> set (map bin_idx (valid_bins recording
                       (current_mapelites (demo_app\<lparr>selected_bins := [(1, 0)]\<rparr>))))
   \<and> emitter_steps (demo_app\<lparr>selected_bins := [(1, 0)]\<rparr>) \<noteq> - 1
   \<and> cb_apply_step recording (Some ''step-btn'') ''Feasible''
        (demo_app\<lparr>selected_bins := [(1, 0)]\<rparr>) =
      (None, demo_app\<lparr>selected_bins := [(1, 0)],
                       log := [(INFO, ''Step not applied: invalid bin(s) selected.'')]\<rparr>)"
  using invalid_selection_aborts_step
          [of "demo_app\<lparr>selected_bins := [(1, 0)]\<rparr>" "(0, 1)" "switch [(1, 0)]" recording
              0 False "Some ''step-btn''" "''Feasible''"]
  by (simp add: demo_valid_bins switch_def)

text \<open>
  The claim as stated, with a warning logged: the entry is logged at level INFO; and
  with an iteration count of -1 the function raises before it tests the selection.
\<close>

theorem warning_level_counterexample:
  "log (snd (apply_step recording [(0, 1)] 0 False demo_app)) =
     [(INFO, ''Step not applied: invalid bin(s) selected.'')]
   \<and> WARNING \<notin> set (map fst (log (snd (apply_step recording [(0, 1)] 0 False demo_app))))
   \<and> fst (apply_step recording [(0, 1)] 0 False (demo_app\<lparr>emitter_steps := - 1\<rparr>)) =
       Inl ZeroDivisionError"
  by (simp add: apply_step_def selection_valid_iff demo_valid_bins logger_def)

subsection \<open>The phases of a step\<close>

text \<open>
  C5: a step that \<^verbatim>\<open>_apply_step\<close> applies (it returns \<^verbatim>\<open>True\<close>) leaves the
  archive that the phases produce in this order: \<^verbatim>\<open>update_elites(reset=True)\<close>, then,
  unless the step is emitter-only, one \<^verbatim>\<open>interactive_step\<close> on the selected bins,
  then \<^verbatim>\<open>emitter_step\<close> as many times as the configured iteration count, then
  \<^verbatim>\<open>update_elites()\<close>; the bins are then those that the last loop returns without
  raising.
\<close>

theorem apply_step_phases_in_order:
  assumes "apply_step X selected gen only_emitter st = (Inr True, st')"
  shows "let m = phase_final X
                   (phase_emitter X gen only_emitter (nat (emitter_steps st))
                      (phase_human X selected gen only_emitter
                         (phase_clear X (current_mapelites st))))
         in refresh_bins X m = (None, bins (current_mapelites st'))
            \<and> current_mapelites st' = m\<lparr>bins := bins (current_mapelites st')\<rparr>"
proof -
  from apply_step_True[OF assms] obtain p
    where "step_body X selected gen only_emitter p st = (Inr True, st')" ..
  from step_body_True[OF this] show ?thesis
    by (simp add: step_phases_archive Let_def)
qed

theorem apply_step_phases_in_order_witness:
  "apply_step recording [(0, 0)] 0 False demo_app =
     (Inr True, snd (apply_step recording [(0, 0)] 0 False demo_app))
   \<and> internals (current_mapelites (snd (apply_step recording [(0, 0)] 0 False demo_app))) =
       [Update_elites True, Interactive_step [(0, 0)] 0, Emitter_step 0 GreedyEmitter,
        Emitter_step 0 GreedyEmitter, Update_elites False]"
proof -
  have h: "apply_step recording [(0, 0)] 0 False demo_app =
     (Inr True, snd (apply_step recording [(0, 0)] 0 False demo_app))"
    using apply_step_demo[of "[(0, 0)]" 0 False] by (simp add: prod_eq_iff)
  have "internals (current_mapelites (snd (apply_step recording [(0, 0)] 0 False demo_app))) =
       internals (phase_final recording
                   (phase_emitter recording 0 False (nat (emitter_steps demo_app))
                      (phase_human recording [(0, 0)] 0 False
                         (phase_clear recording (current_mapelites demo_app)))))"
    using arg_cong [OF conjunct2 [OF apply_step_phases_in_order [OF h, unfolded Let_def]],
                    where f = internals]
    by simp
  then show ?thesis using h
    by (simp add: phase_final_def phase_emitter_def phase_human_def phase_clear_def
        recording_def numeral_2_eq_2)
qed

subsection \<open>Choosing an emitter\<close>

text \<open>
  C6, at the two entries of the menu where the code departs from it: choosing
  Preference Matrix or RBF Kernel leaves the state as it was but for an error message,
  so the emitter of the archive is not replaced. The name in the dictionary is
  \<^verbatim>\<open>'Preference Matrix'\<close> while the chain tests \<^verbatim>\<open>'Preference-matrix'\<close>, and no branch
  tests \<^verbatim>\<open>'RBF Kernel'\<close>.
\<close>

theorem emitter_not_set_for_prefmatrix_and_rbfkernel:
  "cb_emitter X (Some ''emitter-prefmatrix'') st =
     (None, logger ERROR ''[{__name__}.__emitter] Unrecognized {emitter_name=}'' st)
   \<and> cb_emitter X (Some ''emitter-rbfkernel'') st =
     (None, logger ERROR ''[{__name__}.__emitter] Unrecognized {emitter_name=}'' st)
   \<and> emitter (current_mapelites (snd (cb_emitter X (Some ''emitter-prefmatrix'') st))) =
       emitter (current_mapelites st)
   \<and> emitter (current_mapelites (snd (cb_emitter X (Some ''emitter-rbfkernel'') st))) =
       emitter (current_mapelites st)"
  by (simp add: cb_emitter_def emitter_names_def)

text \<open>
  The seven other entries set the emitter to a new instance of their class and leave the
  bins of the archive as they are.
\<close>

lemma emitter_set_for_the_other_entries:
  assumes "(t, c) \<in> set [(''emitter-human'', HumanEmitter), (''emitter-random'', RandomEmitter),
                          (''emitter-greedy'', GreedyEmitter),
                          (''emitter-prefbandit'', PreferenceBanditEmitter),
                          (''emitter-conbandit'', ContextualBanditEmitter),
                          (''emitter-knn'', KNEmitter), (''emitter-linkernel'', KernelEmitter)]"
  shows "fst (cb_emitter X (Some t) st) = None
       \<and> emitter (current_mapelites (snd (cb_emitter X (Some t) st))) = Emitter c None
       \<and> bins (current_mapelites (snd (cb_emitter X (Some t) st))) = bins (current_mapelites st)"
  using assms by (auto simp: cb_emitter_def emitter_names_def set_emitter_def)

subsection \<open>Events that arrive while the lock is held\<close>

lemma launch_flag_and_log_only_refl [simp]: "launch_flag_and_log_only st st"
  by (simp add: launch_flag_and_log_only_def)

lemma launch_flag_and_log_only_steps [simp]:
  "launch_flag_and_log_only st (logger l msg st') = launch_flag_and_log_only st st'"
  "launch_flag_and_log_only st (st'\<lparr>first_launch := b\<rparr>) = launch_flag_and_log_only st st'"
  by (cases st; cases st'; auto simp: launch_flag_and_log_only_def logger_def)+

lemma resolve_event_frame:
  "launch_flag_and_log_only st (snd (resolve_event X triggered st))"
  by (simp add: resolve_event_def Let_def split: option.splits sum.splits)

lemma launch_flag_and_log_onlyD:
  assumes "launch_flag_and_log_only st st'"
  shows "current_mapelites st' = current_mapelites st" "gen_counter st' = gen_counter st"
    "selected_bins st' = selected_bins st" "process_semaphore st' = process_semaphore st"
  using assms by (cases st; cases st'; simp add: launch_flag_and_log_only_def)+

lemma locked_callback:
  assumes "is_locked (process_semaphore st)"
  shows "general_callback X run triggered kw st =
           (case resolve_event X triggered st of
              (Inl e, st1) \<Rightarrow> (Inl e, st1)
            | (Inr event_trig, st1) \<Rightarrow> (Inr (initial_output kw), announce st1))"
proof -
  obtain r st1 where res: "resolve_event X triggered st = (r, st1)"
    by (cases "resolve_event X triggered st")
  have "launch_flag_and_log_only st st1"
    using resolve_event_frame [of st X triggered] res by simp
  then have "process_semaphore st1 = process_semaphore st"
    by (rule launch_flag_and_log_onlyD)
  then have "is_locked (process_semaphore (announce st1))"
    using assms by (simp add: announce_def logger_def)
  with res show ?thesis
    by (cases r) (simp_all add: general_callback_def Let_def)
qed

lemma locked_callback_frame:
  assumes "is_locked (process_semaphore st)"
  shows "launch_flag_and_log_only st (snd (general_callback X run triggered kw st))"
proof -
  obtain r st1 where res: "resolve_event X triggered st = (r, st1)"
    by (cases "resolve_event X triggered st")
  then have "launch_flag_and_log_only st st1"
    using resolve_event_frame [of st X triggered] by simp
  with res show ?thesis
    by (cases r) (simp_all add: locked_callback [OF assms] announce_def)
qed

lemma demo_locked_fields [simp]:
  "is_locked (process_semaphore demo_locked)"
  "current_mapelites demo_locked = demo_archive"
  "first_launch demo_locked = False"
  by (simp_all add: demo_locked_def lock_def demo_app_def)

lemma in_triggers_map:
  "Some ''heatmap-plot'' \<in> fst ` set triggers_map"
  "Some ''nbs-err-btn'' \<in> fst ` set triggers_map"
  "Some ''reset-btn'' \<in> fst ` set triggers_map"
  "Some ''download-btn'' \<notin> fst ` set triggers_map"
  "map_of triggers_map (Some ''download-btn'') = None"
  "map_of triggers_map (Some ''nbs-err-btn'') = Some H_close_error"
  by (simp_all add: triggers_map_def)

lemma resolve_event_lock:
  "process_semaphore (snd (resolve_event X triggered st)) = process_semaphore st"
  using launch_flag_and_log_onlyD(4) [OF resolve_event_frame] .

text \<open>
  C3, as amended. While the process lock is held, the general callback does not dispatch
  the handler of the event (its result does not depend on the handlers) and leaves the
  archive, the generation counter, the selection and the lock as they are: the event is
  dropped. The only state it writes is the flag \<^verbatim>\<open>first_launch\<close> and the log. Unless
  the reading of the event raises, it returns the dictionary \<^verbatim>\<open>output\<close> as first
  built: the values received as \<^verbatim>\<open>State\<close> for the components the callback has as
  \<^verbatim>\<open>State\<close>, and fixed values for the others.
\<close>

theorem locked_event_is_dropped:
  assumes "is_locked (process_semaphore st)"
  shows "general_callback X run triggered kw st = general_callback X run' triggered kw st
       \<and> fst (general_callback X run triggered kw st) =
           (case fst (resolve_event X triggered st) of
              Inl e \<Rightarrow> Inl e
            | Inr event_trig \<Rightarrow> Inr (initial_output kw))
       \<and> launch_flag_and_log_only st (snd (general_callback X run triggered kw st))
       \<and> current_mapelites (snd (general_callback X run triggered kw st)) = current_mapelites st
       \<and> gen_counter (snd (general_callback X run triggered kw st)) = gen_counter st
       \<and> selected_bins (snd (general_callback X run triggered kw st)) = selected_bins st
       \<and> process_semaphore (snd (general_callback X run triggered kw st)) = process_semaphore st"
  using launch_flag_and_log_onlyD [OF locked_callback_frame [OF assms, of X run triggered kw]]
    locked_callback_frame [OF assms, of X run triggered kw]
  by (simp add: locked_callback [OF assms] split: prod.splits sum.splits)

theorem locked_event_is_dropped_witness:
  "is_locked (process_semaphore demo_locked)
   \<and> fst (general_callback recording quiet (Some ''heatmap-plot'') demo_kwargs demo_locked) =
       Inr (initial_output demo_kwargs)
   \<and> current_mapelites
       (snd (general_callback recording quiet (Some ''heatmap-plot'') demo_kwargs demo_locked)) =
       demo_archive"
  using locked_event_is_dropped
          [of demo_locked recording quiet "Some ''heatmap-plot''" demo_kwargs quiet]
  by (simp add: resolve_event_def Let_def in_triggers_map)

text \<open>
  The claim as stated: an event with no trigger that arrives on the first launch while
  the lock is held clears the flag \<^verbatim>\<open>first_launch\<close>; and the label of the selected
  bins, which the callback gives as \<^verbatim>\<open>'Selected bin(s): ...'\<close> when the lock is free,
  is returned empty when the lock is held, for the same selection.
\<close>

theorem locked_event_counterexample:
  "first_launch (demo_locked\<lparr>first_launch := True\<rparr>)
   \<and> \<not> first_launch (snd (general_callback recording quiet None demo_kwargs
                            (demo_locked\<lparr>first_launch := True\<rparr>)))
   \<and> returned (fst (general_callback recording quiet (Some ''nbs-err-btn'') demo_kwargs
                      (demo_app\<lparr>selected_bins := [(0, 0)]\<rparr>)))
        ''selected-bin.children'' = Some (Str ''Selected bin(s): bin;'')
   \<and> returned (fst (general_callback recording quiet (Some ''nbs-err-btn'') demo_kwargs
                      (demo_locked\<lparr>selected_bins := [(0, 0)]\<rparr>)))
        ''selected-bin.children'' = Some (Str [])"
proof -
  have a: "\<not> first_launch (snd (general_callback recording quiet None demo_kwargs
                            (demo_locked\<lparr>first_launch := True\<rparr>)))"
    by (simp add: locked_callback resolve_event_def Let_def in_triggers_map announce_def logger_def)
  have b: "returned (fst (general_callback recording quiet (Some ''nbs-err-btn'') demo_kwargs
                      (demo_locked\<lparr>selected_bins := [(0, 0)]\<rparr>)))
        ''selected-bin.children'' = Some (Str [])"
    by (simp add: locked_callback resolve_event_def Let_def in_triggers_map returned_def
        initial_output_def)
  have c: "returned (fst (general_callback recording quiet (Some ''nbs-err-btn'') demo_kwargs
                      (demo_app\<lparr>selected_bins := [(0, 0)]\<rparr>)))
        ''selected-bin.children'' = Some (Str ''Selected bin(s): bin;'')"
    by (simp add: general_callback_def resolve_event_def Let_def in_triggers_map announce_def
        logger_def demo_app_def dispatch_def quiet_def acquire_def lock_def finish_callback_def
        format_bins_def format_step_def demo_archive_def bin_at_def py_index_def bin_of_def
        non_empty_def members_def cand_def merge_output_def initial_output_def returned_def
        demo_kwargs_def recording_def release_def)
  from a b c show ?thesis by simp
qed

subsection \<open>A handler that raises\<close>

text \<open>
  C9: when the lock is free and the dispatch of the event raises (the handler raises, or
  the event is not a key of the table), the callback ends with that exception in the
  state the handler left: the lock, taken before the dispatch, is not released. A
  handler does not write the lock, so the lock is held, and every later event is dropped
  as busy: the callback returns the dictionary as first built (or the exception of the
  reading of the event), with the lock still held and the archive as it was.
\<close>

theorem handler_error_leaves_lock_held:
  assumes "resolve_event X triggered st = (Inr event_trig, st1)"
    and "\<not> is_locked (process_semaphore st)"
    and "dispatch run kw event_trig (acquire event_trig (announce st1)) = (Inl e, st')"
    and "process_semaphore st' = process_semaphore (acquire event_trig (announce st1))"
  shows "general_callback X run triggered kw st = (Inl e, st')
       \<and> is_locked (process_semaphore st')
       \<and> general_callback X run2 triggered2 kw2 st' =
           (case resolve_event X triggered2 st' of
              (Inl e2, st2) \<Rightarrow> (Inl e2, st2)
            | (Inr event_trig2, st2) \<Rightarrow> (Inr (initial_output kw2), announce st2))
       \<and> is_locked (process_semaphore (snd (general_callback X run2 triggered2 kw2 st')))
       \<and> current_mapelites (snd (general_callback X run2 triggered2 kw2 st')) =
           current_mapelites st'"
proof -
  have "process_semaphore st1 = process_semaphore st"
    using resolve_event_lock [of X triggered st] assms(1) by simp
  then have "\<not> is_locked (process_semaphore (announce st1))"
    using assms(2) by (simp add: announce_def logger_def)
  then have first: "general_callback X run triggered kw st = (Inl e, st')"
    using assms(1,3) by (simp add: general_callback_def Let_def)
  have held: "is_locked (process_semaphore st')"
    using assms(4) by (simp add: acquire_def lock_def)
  have frame: "launch_flag_and_log_only st' (snd (general_callback X run2 triggered2 kw2 st'))"
    by (rule locked_callback_frame [OF held])
  show ?thesis
    using first held locked_callback [OF held, of X run2 triggered2 kw2]
      launch_flag_and_log_onlyD(1,4) [OF frame]
    by simp
qed

theorem handler_error_leaves_lock_held_witness:
  "resolve_event recording (Some ''step-btn'') demo_app = (Inr (Some ''step-btn''), demo_app)
   \<and> \<not> is_locked (process_semaphore demo_app)
   \<and> fst (general_callback recording raising (Some ''step-btn'') demo_kwargs demo_app) =
       Inl (ExternalError ''raised by the handler'')
   \<and> is_locked (process_semaphore
        (snd (general_callback recording raising (Some ''step-btn'') demo_kwargs demo_app)))
   \<and> fst (general_callback recording quiet (Some ''heatmap-plot'') demo_kwargs
        (snd (general_callback recording raising (Some ''step-btn'') demo_kwargs demo_app))) =
       Inr (initial_output demo_kwargs)"
proof -
  let ?st' = "acquire (Some ''step-btn'') (announce demo_app)"
  have r: "resolve_event recording (Some ''step-btn'') demo_app =
             (Inr (Some ''step-btn''), demo_app)"
    by (simp add: resolve_event_def Let_def triggers_map_def)
  have u: "\<not> is_locked (process_semaphore demo_app)"
    by (simp add: demo_app_def)
  have d: "dispatch raising demo_kwargs (Some ''step-btn'') ?st' =
             (Inl (ExternalError ''raised by the handler''), ?st')"
    by (simp add: dispatch_def triggers_map_def raising_def)
  have s: "resolve_event recording (Some ''heatmap-plot'') ?st' =
             (Inr (Some ''heatmap-plot''), ?st')"
    by (simp add: resolve_event_def Let_def in_triggers_map)
  show ?thesis
    using handler_error_leaves_lock_held
            [OF r u d refl, of quiet "Some ''heatmap-plot''" demo_kwargs] r u s
    by simp
qed

text \<open>
  The same happens without any handler: the download button is an input of the
  callback but not a key of the table. When reading its identifier as a literal raises
  ValueError, the lookup in the table raises KeyError after the lock is taken.
\<close>

lemma download_button_leaves_lock_held:
  assumes "literal_eval_type X ''download-btn'' = Inl ValueError"
    and "\<not> is_locked (process_semaphore st)"
  shows "fst (general_callback X run (Some ''download-btn'') kw st) = Inl KeyError
       \<and> is_locked (process_semaphore (snd (general_callback X run (Some ''download-btn'') kw st)))"
  using assms
  by (simp add: general_callback_def resolve_event_def Let_def in_triggers_map announce_def
      logger_def dispatch_def acquire_def lock_def)

subsection \<open>Archives related candidate by candidate\<close>










lemma py_index_Some: "py_index xs i = Some r \<Longrightarrow> r < length xs"
  by (auto simp: py_index_def Let_def split: if_splits)




lemma update_candidate_elite:
  assumes "bin_at (bins m) ij = Some b"
  shows "update_candidate ij pop k (\<lambda>c. f (members b pop ! k)) m = update_candidate ij pop k f m"
  using assms by (simp add: update_candidate_def)

lemma archive_but_bins_update_candidate:
  "(update_candidate ij pop k f m)\<lparr>bins := bs\<rparr> = m\<lparr>bins := bs\<rparr>"
  by (simp add: update_candidate_def split: option.splits)

lemma bin_at_bin_pos: "bin_at bs ij = map_option (\<lambda>(r, c). bs ! r ! c) (bin_pos bs ij)"
  by (simp add: bin_at_def bin_pos_def split: option.splits)

lemma bin_at_set_bin_at:
  assumes "bin_at bs ij = Some b"
  shows "bin_at (set_bin_at ij b' bs) ij' =
           (if bin_pos bs ij' = bin_pos bs ij then Some b' else bin_at bs ij')"
proof -
  from assms obtain r c where r: "py_index bs (fst ij) = Some r"
    and c: "py_index (bs ! r) (snd ij) = Some c"
    by (auto simp: bin_at_def split: option.splits)
  let ?bs' = "bs[r := (bs ! r)[c := b']]"
  note rl = py_index_Some [OF r] and cl = py_index_Some [OF c]
  have s: "set_bin_at ij b' bs = ?bs'"
    by (simp add: set_bin_at_def r c)
  have p1: "py_index ?bs' i = py_index bs i" for i
    by (simp add: py_index_def)
  have p2: "py_index (?bs' ! r') j = py_index (bs ! r') j" if "r' < length bs" for r' j
    using that by (cases "r' = r") (simp_all add: py_index_def)
  have n: "?bs' ! r' ! c' = (if r' = r \<and> c' = c then b' else bs ! r' ! c')"
    if "r' < length bs" "c' < length (bs ! r')" for r' c'
    using that by (cases "r' = r"; cases "c' = c") simp_all
  show ?thesis
  proof (cases "py_index bs (fst ij')")
    case None
    then show ?thesis
      unfolding s by (simp add: bin_at_def bin_pos_def p1 r c)
  next
    case (Some r')
    note r'l = py_index_Some [OF Some]
    show ?thesis
    proof (cases "py_index (bs ! r') (snd ij')")
      case None
      then show ?thesis
        unfolding s bin_at_def bin_pos_def p1 using Some r c p2 [OF r'l] by simp
    next
      case c': (Some c')
      show ?thesis
        unfolding s bin_at_def bin_pos_def p1
        using Some c' r c p2 [OF r'l] n [OF r'l py_index_Some [OF c']] by simp
    qed
  qed
qed

lemma members_set_members [simp]: "members (set_members pop cs b) pop = cs"
  by (cases pop) (simp_all add: members_def set_members_def)

lemma members_set_members_other:
  "pop' \<noteq> pop \<Longrightarrow> members (set_members pop cs b) pop' = members b pop'"
  by (cases pop; cases pop') (simp_all add: members_def set_members_def)

lemma candidate_at_update_candidate:
  assumes "bin_at (bins m) ij = Some b" and "k < length (members b pop)"
  shows "candidate_at (update_candidate ij pop k f m) ij' pop' k' =
           (if bin_pos (bins m) ij' = bin_pos (bins m) ij \<and> pop' = pop \<and> k' = k
            then Some (f (members b pop ! k))
            else candidate_at m ij' pop' k')"
proof (cases "bin_pos (bins m) ij' = bin_pos (bins m) ij")
  case True
  then have b': "bin_at (bins m) ij' = Some b"
    using assms(1) by (simp add: bin_at_bin_pos)
  show ?thesis
  proof (cases "pop' = pop")
    case same: True
    show ?thesis
      using True b' assms unfolding same
      by (simp add: candidate_at_def update_candidate_def bin_at_set_bin_at nth_list_update)
  next
    case False
    then show ?thesis
      using True b' assms
      by (simp add: candidate_at_def update_candidate_def bin_at_set_bin_at
          members_set_members_other)
  qed
next
  case False
  then show ?thesis
    using assms(1)
    by (simp add: candidate_at_def update_candidate_def bin_at_set_bin_at)
qed

lemma elite_refD:
  assumes "elite_ref X m ij pop = Inr (b, k)"
  shows "bin_at (bins m) ij = Some b" "k < length (members b pop)"
    "candidate_at m ij pop k = Some (members b pop ! k)"
  using assms
  by (auto simp: elite_ref_def get_elite_pos_def candidate_at_def
      split: option.splits sum.splits if_splits)

subsection \<open>The preview, the download and the recolouring on a candidate\<close>

lemma symmetric_preview_raises:
  "fst (symmetric_preview X m axis c) =
     (if realizable X (expand X (enforce_symmetry X (cs_string c) axis)) then None
      else Some InvalidGenotype)"
  by (simp add: symmetric_preview_def Let_def set_structure_def add_ll_strings_def)

lemma symmetric_preview_failed:
  assumes "\<not> realizable X (expand X (enforce_symmetry X (cs_string c) axis))"
  shows "symmetric_preview X m axis c =
     (Some InvalidGenotype,
      c\<lparr>content := None, cs_string := enforce_symmetry X (cs_string c) axis,
        ll_string := expand X (enforce_symmetry X (cs_string c) axis)\<rparr>)"
  using assms by (simp add: symmetric_preview_def Let_def set_structure_def add_ll_strings_def)

lemma symmetric_preview_fields:
  assumes "fst (symmetric_preview X m axis c) = None"
  shows "cs_string (snd (symmetric_preview X m axis c)) = cs_string c"
    "c_fitness (snd (symmetric_preview X m axis c)) = c_fitness c"
    "b_descs (snd (symmetric_preview X m axis c)) = b_descs c"
    "is_feasible (snd (symmetric_preview X m axis c)) = is_feasible c"
    "age (snd (symmetric_preview X m axis c)) = age c"
    "base_color (snd (symmetric_preview X m axis c)) = base_color c"
    "map_option built_from (content (snd (symmetric_preview X m axis c))) =
       Some (expand X (enforce_symmetry X (cs_string c) axis))"
    "map_option s_color (content (snd (symmetric_preview X m axis c))) =
       Some (Some (base_color c))"
    "ll_string (snd (symmetric_preview X m axis c)) =
       expand X (enforce_symmetry X (cs_string c) axis)"
    "content (snd (symmetric_preview X m axis c)) \<noteq> None"
proof -
  have r: "realizable X (expand X (enforce_symmetry X (cs_string c) axis))"
    using assms by (simp add: symmetric_preview_raises split: if_splits)
  show "cs_string (snd (symmetric_preview X m axis c)) = cs_string c"
    "c_fitness (snd (symmetric_preview X m axis c)) = c_fitness c"
    "b_descs (snd (symmetric_preview X m axis c)) = b_descs c"
    "is_feasible (snd (symmetric_preview X m axis c)) = is_feasible c"
    "age (snd (symmetric_preview X m axis c)) = age c"
    "base_color (snd (symmetric_preview X m axis c)) = base_color c"
    "map_option built_from (content (snd (symmetric_preview X m axis c))) =
       Some (expand X (enforce_symmetry X (cs_string c) axis))"
    "map_option s_color (content (snd (symmetric_preview X m axis c))) =
       Some (Some (base_color c))"
    "ll_string (snd (symmetric_preview X m axis c)) =
       expand X (enforce_symmetry X (cs_string c) axis)"
    "content (snd (symmetric_preview X m axis c)) \<noteq> None"
    by (simp_all add: symmetric_preview_def Let_def set_structure_def with_structure_def
        add_ll_strings_def r)
qed

lemma symmetric_preview_consistent:
  assumes "fst (symmetric_preview X m axis c) = None"
  shows "consistent X (snd (symmetric_preview X m axis c)) =
     (expand X (enforce_symmetry X (cs_string c) axis) = expand X (cs_string c))"
  using symmetric_preview_fields(1,7) [OF assms]
  by (cases "content (snd (symmetric_preview X m axis c))") (auto simp: consistent_def)

lemma recolor_consistent: "consistent X (recolor color c) = consistent X c"
  by (cases "content c") (simp_all add: consistent_def recolor_def Let_def)


lemma get_elite_content_plain:
  "symmetry st = None \<Longrightarrow> snd (get_elite_content X idx pop st) = st"
  by (auto simp: get_elite_content_def split: option.splits sum.splits)

lemma get_elite_content_symmetric:
  assumes "symmetry st = Some axis"
    and "elite_ref X (current_mapelites st) ij pop = Inr (b, k)"
  shows "get_elite_content X (Some ij) pop st =
     (fst (symmetric_preview X (current_mapelites st) axis (members b pop ! k)),
      on_archive (update_candidate ij pop k
                    (\<lambda>c. snd (symmetric_preview X (current_mapelites st) axis c))) st)"
proof -
  obtain r e where p: "symmetric_preview X (current_mapelites st) axis (members b pop ! k) = (r, e)"
    by (cases "symmetric_preview X (current_mapelites st) axis (members b pop ! k)")
  have c: "read_content e = None" if "r = None"
    using symmetric_preview_fields(10) [of X "current_mapelites st" axis "members b pop ! k"]
      p that
    by (simp add: read_content_def)
  have u: "update_candidate ij pop k (\<lambda>c. e) (current_mapelites st) =
           update_candidate ij pop k
             (\<lambda>c. snd (symmetric_preview X (current_mapelites st) axis c)) (current_mapelites st)"
    using update_candidate_elite [OF elite_refD(1) [OF assms(2)], of pop k
            "\<lambda>c. snd (symmetric_preview X (current_mapelites st) axis c)"] p
    by simp
  show ?thesis
    using c u by (cases r) (simp_all add: get_elite_content_def assms p on_archive_def)
qed



lemma recording_fields [simp]:
  "elite_index recording cs = 0"
  "prepare_cs_content recording m c = c"
  "enforce_symmetry recording s axis = s @ rev s"
  "expand recording s = s"
  "realizable recording s"
  "hex_int recording s = (if s = ''80'' then Inr 128 else Inl ValueError)"
  "literal_eval_type recording s = Inl ValueError"
  "bin_label recording m ij = '' bin;''"
  by (simp_all add: recording_def)

lemma strict_fields [simp]:
  "elite_index strict cs = 0"
  "enforce_symmetry strict s axis = s @ rev s"
  "expand strict s = s"
  "realizable strict s = (length s \<le> 1)"
  by (simp_all add: strict_def recording_def)

lemma demo_bins:
  "bin_at (bins demo_archive) (0, 0) = Some (bin_of (0, 0) [cand ''a''])"
  "bin_at (bins (current_mapelites demo_built)) (0, 0) =
     Some (bin_of (0, 0) [with_structure (cand ''a'')])"
  by (simp_all add: demo_built_def demo_archive_def bin_at_def py_index_def bin_of_def)

lemma members_bin_of [simp]:
  "members (bin_of ij cs) Feasible = cs" "members (bin_of ij cs) Infeasible = []"
  by (simp_all add: members_def bin_of_def)

lemma demo_elite_ref:
  "elite_ref recording demo_archive (0, 0) Feasible = Inr (bin_of (0, 0) [cand ''a''], 0)"
  "elite_ref recording (current_mapelites demo_built) (0, 0) Feasible =
     Inr (bin_of (0, 0) [with_structure (cand ''a'')], 0)"
  "elite_ref strict demo_archive (0, 0) Feasible = Inr (bin_of (0, 0) [cand ''a''], 0)"
  by (simp_all add: elite_ref_def demo_bins get_elite_pos_def)

lemma cand_fields [simp]:
  "cs_string (cand s) = s" "ll_string (cand s) = s" "content (cand s) = None"
  "is_feasible (cand s)" "base_color (cand s) = (0, 0, 0)"
  by (simp_all add: cand_def)

lemma demo_preview_returns:
  "fst (symmetric_preview recording m axis c) = None"
  by (simp add: symmetric_preview_raises)

lemma demo_previewed:
  "candidate_at
     (current_mapelites
        (snd (get_elite_content recording (Some (0, 0)) Feasible
                (demo_app\<lparr>symmetry := Some ''x''\<rparr>))))
     (0, 0) Feasible 0 =
   Some (snd (symmetric_preview recording demo_archive ''x'' (cand ''a'')))"
proof -
  have e: "elite_ref recording (current_mapelites (demo_app\<lparr>symmetry := Some ''x''\<rparr>))
             (0, 0) Feasible = Inr (bin_of (0, 0) [cand ''a''], 0)"
    by (simp add: demo_elite_ref)
  have s: "symmetry (demo_app\<lparr>symmetry := Some ''x''\<rparr>) = Some ''x''" by simp
  show ?thesis
    using elite_refD(1,2) [OF demo_elite_ref(1)]
    by (simp add: get_elite_content_symmetric [OF s e] candidate_at_update_candidate)
qed

lemma logger_fields [simp]:
  "selected_bins (logger l msg st) = selected_bins st"
  "symmetry (logger l msg st) = symmetry st"
  "gen_counter (logger l msg st) = gen_counter st"
  "process_semaphore (logger l msg st) = process_semaphore st"
  "download_semaphore (logger l msg st) = download_semaphore st"
  "global_base_color (logger l msg st) = global_base_color st"
  by (simp_all add: logger_def)

lemma on_archive_fields [simp]:
  "selected_bins (on_archive f st) = selected_bins st"
  "symmetry (on_archive f st) = symmetry st"
  "gen_counter (on_archive f st) = gen_counter st"
  "process_semaphore (on_archive f st) = process_semaphore st"
  "download_semaphore (on_archive f st) = download_semaphore st"
  "global_base_color (on_archive f st) = global_base_color st"
  by (simp_all add: on_archive_def)

lemma demo_downloaded:
  "candidate_at
     (current_mapelites
        (snd (download_content recording
                (demo_built\<lparr>selected_bins := [(0, 0)], symmetry := Some ''x''\<rparr>))))
     (0, 0) Feasible 0 =
   Some ((with_structure (cand ''a''))\<lparr>cs_string := ''aa''\<rparr>)"
proof -
  have h: "hull_builder (current_mapelites demo_built) \<noteq> None"
    by (simp add: demo_built_def demo_archive_def)
  have h': "hull_builder (update_candidate ij pop k f m) = hull_builder m" for ij pop k f
    and m :: "call list mapelites"
    by (simp add: update_candidate_def split: option.splits)
  show ?thesis
    using elite_refD(1,2) [OF demo_elite_ref(2)] h
    by (auto simp add: download_content_def write_archive_def Let_def switch_def
        demo_elite_ref h' candidate_at_update_candidate with_structure_def)
qed

lemma demo_download_returns:
  "fst (download_content recording
          (demo_built\<lparr>selected_bins := [(0, 0)], symmetry := Some ''x''\<rparr>)) = None"
proof -
  have h: "hull_builder (current_mapelites demo_built) \<noteq> None"
    by (simp add: demo_built_def demo_archive_def)
  have h': "hull_builder (update_candidate ij pop k f m) = hull_builder m" for ij pop k f
    and m :: "call list mapelites"
    by (simp add: update_candidate_def split: option.splits)
  show ?thesis
    using h
    by (auto simp add: download_content_def write_archive_def Let_def switch_def
        demo_elite_ref h')
qed




subsection \<open>Genotype and cached phenotype\<close>

text \<open>
  C4, as amended. Previewing with no symmetry axis set changes nothing. Previewing the
  elite of a bin with a symmetry axis set replaces that elite and changes nothing else:
  the state it leaves is the one it found with the candidate at the position of the
  elite replaced, every other position of every population of every bin holds the
  candidate it held, and the rest of the archive is as it was. When the expansion of the
  symmetry-enforced string can be realized, the preview returns and the elite has its
  genotype string back, the low-level string of the symmetry-enforced string, and as
  cached phenotype the realization of that low-level string, which is consistent with
  the genotype string exactly when enforcing the symmetry leaves the expansion of the
  string unchanged. When it cannot be realized, the preview raises and the elite is left
  with the symmetry-enforced string, its expansion and no cached phenotype. Recolouring
  keeps a cached phenotype as consistent as it was.
\<close>

theorem preview_replaces_only_previewed_elite:
  "(symmetry st = None \<longrightarrow> snd (get_elite_content X idx pop st) = st)
   \<and> (symmetry st = Some axis \<and> elite_ref X (current_mapelites st) ij pop = Inr (b, k) \<longrightarrow>
        get_elite_content X (Some ij) pop st =
          (fst (symmetric_preview X (current_mapelites st) axis (members b pop ! k)),
           on_archive (update_candidate ij pop k
                         (\<lambda>c. snd (symmetric_preview X (current_mapelites st) axis c))) st)
        \<and> candidate_at (current_mapelites st) ij pop k = Some (members b pop ! k)
        \<and> candidate_at (current_mapelites (snd (get_elite_content X (Some ij) pop st)))
            ij' pop' k' =
            (if bin_pos (bins (current_mapelites st)) ij' = bin_pos (bins (current_mapelites st)) ij
                \<and> pop' = pop \<and> k' = k
             then Some (snd (symmetric_preview X (current_mapelites st) axis (members b pop ! k)))
             else candidate_at (current_mapelites st) ij' pop' k')
        \<and> (current_mapelites (snd (get_elite_content X (Some ij) pop st)))\<lparr>bins := bs\<rparr> =
            (current_mapelites st)\<lparr>bins := bs\<rparr>)
   \<and> (realizable X (expand X (enforce_symmetry X (cs_string c) axis)) \<longrightarrow>
        fst (symmetric_preview X m axis c) = None
        \<and> cs_string (snd (symmetric_preview X m axis c)) = cs_string c
        \<and> ll_string (snd (symmetric_preview X m axis c)) =
            expand X (enforce_symmetry X (cs_string c) axis)
        \<and> map_option built_from (content (snd (symmetric_preview X m axis c))) =
            Some (expand X (enforce_symmetry X (cs_string c) axis))
        \<and> consistent X (snd (symmetric_preview X m axis c)) =
            (expand X (enforce_symmetry X (cs_string c) axis) = expand X (cs_string c)))
   \<and> (\<not> realizable X (expand X (enforce_symmetry X (cs_string c) axis)) \<longrightarrow>
        symmetric_preview X m axis c =
          (Some InvalidGenotype,
           c\<lparr>content := None, cs_string := enforce_symmetry X (cs_string c) axis,
             ll_string := expand X (enforce_symmetry X (cs_string c) axis)\<rparr>))
   \<and> consistent X (recolor color c) = consistent X c"
proof (intro conjI)
  show "symmetry st = None \<longrightarrow> snd (get_elite_content X idx pop st) = st"
    by (simp add: get_elite_content_plain)
  show "symmetry st = Some axis \<and> elite_ref X (current_mapelites st) ij pop = Inr (b, k) \<longrightarrow>
        get_elite_content X (Some ij) pop st =
          (fst (symmetric_preview X (current_mapelites st) axis (members b pop ! k)),
           on_archive (update_candidate ij pop k
                         (\<lambda>c. snd (symmetric_preview X (current_mapelites st) axis c))) st)
        \<and> candidate_at (current_mapelites st) ij pop k = Some (members b pop ! k)
        \<and> candidate_at (current_mapelites (snd (get_elite_content X (Some ij) pop st)))
            ij' pop' k' =
            (if bin_pos (bins (current_mapelites st)) ij' = bin_pos (bins (current_mapelites st)) ij
                \<and> pop' = pop \<and> k' = k
             then Some (snd (symmetric_preview X (current_mapelites st) axis (members b pop ! k)))
             else candidate_at (current_mapelites st) ij' pop' k')
        \<and> (current_mapelites (snd (get_elite_content X (Some ij) pop st)))\<lparr>bins := bs\<rparr> =
            (current_mapelites st)\<lparr>bins := bs\<rparr>"
  proof (intro impI, elim conjE)
    assume s: "symmetry st = Some axis"
      and e: "elite_ref X (current_mapelites st) ij pop = Inr (b, k)"
    note g = get_elite_content_symmetric [OF s e]
    have c1: "candidate_at (current_mapelites st) ij pop k = Some (members b pop ! k)"
      by (rule elite_refD(3) [OF e])
    have c2: "candidate_at (current_mapelites (snd (get_elite_content X (Some ij) pop st)))
            ij' pop' k' =
            (if bin_pos (bins (current_mapelites st)) ij' = bin_pos (bins (current_mapelites st)) ij
                \<and> pop' = pop \<and> k' = k
             then Some (snd (symmetric_preview X (current_mapelites st) axis (members b pop ! k)))
             else candidate_at (current_mapelites st) ij' pop' k')"
      unfolding g
      using candidate_at_update_candidate [OF elite_refD(1,2) [OF e], of
              "\<lambda>c. snd (symmetric_preview X (current_mapelites st) axis c)" ij' pop' k']
      by simp
    have c3: "(current_mapelites (snd (get_elite_content X (Some ij) pop st)))\<lparr>bins := bs\<rparr> =
            (current_mapelites st)\<lparr>bins := bs\<rparr>"
      unfolding g by (simp add: archive_but_bins_update_candidate)
    from g c1 c2 c3 show "get_elite_content X (Some ij) pop st =
          (fst (symmetric_preview X (current_mapelites st) axis (members b pop ! k)),
           on_archive (update_candidate ij pop k
                         (\<lambda>c. snd (symmetric_preview X (current_mapelites st) axis c))) st)
        \<and> candidate_at (current_mapelites st) ij pop k = Some (members b pop ! k)
        \<and> candidate_at (current_mapelites (snd (get_elite_content X (Some ij) pop st)))
            ij' pop' k' =
            (if bin_pos (bins (current_mapelites st)) ij' = bin_pos (bins (current_mapelites st)) ij
                \<and> pop' = pop \<and> k' = k
             then Some (snd (symmetric_preview X (current_mapelites st) axis (members b pop ! k)))
             else candidate_at (current_mapelites st) ij' pop' k')
        \<and> (current_mapelites (snd (get_elite_content X (Some ij) pop st)))\<lparr>bins := bs\<rparr> =
            (current_mapelites st)\<lparr>bins := bs\<rparr>"
      by (intro conjI)
  qed
  show "realizable X (expand X (enforce_symmetry X (cs_string c) axis)) \<longrightarrow>
        fst (symmetric_preview X m axis c) = None
        \<and> cs_string (snd (symmetric_preview X m axis c)) = cs_string c
        \<and> ll_string (snd (symmetric_preview X m axis c)) =
            expand X (enforce_symmetry X (cs_string c) axis)
        \<and> map_option built_from (content (snd (symmetric_preview X m axis c))) =
            Some (expand X (enforce_symmetry X (cs_string c) axis))
        \<and> consistent X (snd (symmetric_preview X m axis c)) =
            (expand X (enforce_symmetry X (cs_string c) axis) = expand X (cs_string c))"
  proof
    assume "realizable X (expand X (enforce_symmetry X (cs_string c) axis))"
    then have ok: "fst (symmetric_preview X m axis c) = None"
      by (simp add: symmetric_preview_raises)
    from ok symmetric_preview_fields(1,9,7) [OF ok] symmetric_preview_consistent [OF ok]
    show "fst (symmetric_preview X m axis c) = None
        \<and> cs_string (snd (symmetric_preview X m axis c)) = cs_string c
        \<and> ll_string (snd (symmetric_preview X m axis c)) =
            expand X (enforce_symmetry X (cs_string c) axis)
        \<and> map_option built_from (content (snd (symmetric_preview X m axis c))) =
            Some (expand X (enforce_symmetry X (cs_string c) axis))
        \<and> consistent X (snd (symmetric_preview X m axis c)) =
            (expand X (enforce_symmetry X (cs_string c) axis) = expand X (cs_string c))"
      by (intro conjI)
  qed
  show "\<not> realizable X (expand X (enforce_symmetry X (cs_string c) axis)) \<longrightarrow>
        symmetric_preview X m axis c =
          (Some InvalidGenotype,
           c\<lparr>content := None, cs_string := enforce_symmetry X (cs_string c) axis,
             ll_string := expand X (enforce_symmetry X (cs_string c) axis)\<rparr>)"
    using symmetric_preview_failed [of X c axis m] by blast
  show "consistent X (recolor color c) = consistent X c"
    by (rule recolor_consistent)
qed

theorem preview_replaces_only_previewed_elite_witness:
  "symmetry demo_app = None
   \<and> snd (get_elite_content recording (Some (0, 0)) Feasible demo_app) = demo_app
   \<and> symmetry (demo_app\<lparr>symmetry := Some ''x''\<rparr>) = Some ''x''
   \<and> elite_ref recording (current_mapelites (demo_app\<lparr>symmetry := Some ''x''\<rparr>)) (0, 0) Feasible =
       Inr (bin_of (0, 0) [cand ''a''], 0)
   \<and> realizable recording (expand recording (enforce_symmetry recording (cs_string (cand ''a'')) ''x''))
   \<and> fst (get_elite_content recording (Some (0, 0)) Feasible (demo_app\<lparr>symmetry := Some ''x''\<rparr>)) =
       None
   \<and> candidate_at
        (current_mapelites
           (snd (get_elite_content recording (Some (0, 0)) Feasible
                   (demo_app\<lparr>symmetry := Some ''x''\<rparr>))))
        (0, 0) Feasible 0 =
       Some (snd (symmetric_preview recording demo_archive ''x'' (cand ''a'')))
   \<and> candidate_at
        (current_mapelites
           (snd (get_elite_content recording (Some (0, 0)) Feasible
                   (demo_app\<lparr>symmetry := Some ''x''\<rparr>))))
        (1, 1) Feasible 0 =
       Some (cand ''b'')
   \<and> cs_string (snd (symmetric_preview recording demo_archive ''x'' (cand ''a''))) = ''a''
   \<and> map_option built_from
        (content (snd (symmetric_preview recording demo_archive ''x'' (cand ''a'')))) = Some ''aa''
   \<and> \<not> consistent recording (snd (symmetric_preview recording demo_archive ''x'' (cand ''a'')))
   \<and> elite_ref strict (current_mapelites (demo_app\<lparr>symmetry := Some ''x''\<rparr>)) (0, 0) Feasible =
       Inr (bin_of (0, 0) [cand ''a''], 0)
   \<and> \<not> realizable strict (expand strict (enforce_symmetry strict (cs_string (cand ''a'')) ''x''))
   \<and> fst (get_elite_content strict (Some (0, 0)) Feasible (demo_app\<lparr>symmetry := Some ''x''\<rparr>)) =
       Some InvalidGenotype
   \<and> candidate_at
        (current_mapelites
           (snd (get_elite_content strict (Some (0, 0)) Feasible
                   (demo_app\<lparr>symmetry := Some ''x''\<rparr>))))
        (0, 0) Feasible 0 =
       Some ((cand ''a'')\<lparr>content := None, cs_string := ''aa'', ll_string := ''aa''\<rparr>)"
proof -
  let ?S = "demo_app\<lparr>symmetry := Some ''x''\<rparr>"
  have p: "bin_pos (bins demo_archive) (1, 1) \<noteq> bin_pos (bins demo_archive) (0, 0)"
    by (simp add: bin_pos_def demo_archive_def py_index_def)
  have q: "candidate_at demo_archive (1, 1) Feasible 0 = Some (cand ''b'')"
    by (simp add: candidate_at_def demo_archive_def bin_at_def py_index_def)
  have n: "symmetry demo_app = None" by (simp add: demo_app_def)
  have h: "symmetry ?S = Some ''x''
           \<and> elite_ref recording (current_mapelites ?S) (0, 0) Feasible =
               Inr (bin_of (0, 0) [cand ''a''], 0)"
    by (simp add: demo_elite_ref)
  have h': "symmetry ?S = Some ''x''
           \<and> elite_ref strict (current_mapelites ?S) (0, 0) Feasible =
               Inr (bin_of (0, 0) [cand ''a''], 0)"
    by (simp add: demo_elite_ref)
  have r: "realizable recording
             (expand recording (enforce_symmetry recording (cs_string (cand ''a'')) ''x''))"
    by simp
  have r': "\<not> realizable strict
             (expand strict (enforce_symmetry strict (cs_string (cand ''a'')) ''x''))"
    by simp
  note t0 = preview_replaces_only_previewed_elite
            [of demo_app recording "Some (0, 0)" Feasible "''x''" "(0, 0)"
                "bin_of (0, 0) [cand ''a'']" 0 "(0, 0)" Feasible 0 "[]" "cand ''a''" demo_archive]
  note t1 = preview_replaces_only_previewed_elite
            [of ?S recording "Some (0, 0)" Feasible "''x''" "(0, 0)"
                "bin_of (0, 0) [cand ''a'']" 0 "(0, 0)" Feasible 0 "[]" "cand ''a''" demo_archive]
  note t2 = preview_replaces_only_previewed_elite
            [of ?S recording "Some (0, 0)" Feasible "''x''" "(0, 0)"
                "bin_of (0, 0) [cand ''a'']" 0 "(1, 1)" Feasible 0 "[]" "cand ''a''" demo_archive]
  note t3 = preview_replaces_only_previewed_elite
            [of ?S strict "Some (0, 0)" Feasible "''x''" "(0, 0)"
                "bin_of (0, 0) [cand ''a'']" 0 "(0, 0)" Feasible 0 "[]" "cand ''a''" demo_archive]
  note u0 = mp [OF conjunct1 [OF t0] n]
  note u1 = mp [OF conjunct1 [OF conjunct2 [OF t1]] h]
  note u2 = mp [OF conjunct1 [OF conjunct2 [OF t2]] h]
  note u3 = mp [OF conjunct1 [OF conjunct2 [OF conjunct2 [OF t1]]] r]
  note u4 = mp [OF conjunct1 [OF conjunct2 [OF t3]] h']
  note u5 = mp [OF conjunct1 [OF conjunct2 [OF conjunct2 [OF conjunct2 [OF t3]]]] r']
  have g: "fst (get_elite_content recording (Some (0, 0)) Feasible ?S) = None"
    using arg_cong [OF conjunct1 [OF u1], where f = fst] conjunct1 [OF u3] by simp
  have c0: "candidate_at
        (current_mapelites (snd (get_elite_content recording (Some (0, 0)) Feasible ?S)))
        (0, 0) Feasible 0 =
       Some (snd (symmetric_preview recording demo_archive ''x'' (cand ''a'')))"
    using conjunct1 [OF conjunct2 [OF conjunct2 [OF u1]]] by simp
  have c1: "candidate_at
        (current_mapelites (snd (get_elite_content recording (Some (0, 0)) Feasible ?S)))
        (1, 1) Feasible 0 = Some (cand ''b'')"
    using conjunct1 [OF conjunct2 [OF conjunct2 [OF u2]]] by (simp add: p q)
  have f: "cs_string (snd (symmetric_preview recording demo_archive ''x'' (cand ''a''))) = ''a''"
    "map_option built_from
        (content (snd (symmetric_preview recording demo_archive ''x'' (cand ''a'')))) = Some ''aa''"
    "\<not> consistent recording (snd (symmetric_preview recording demo_archive ''x'' (cand ''a'')))"
    using u3 by simp_all
  have g': "fst (get_elite_content strict (Some (0, 0)) Feasible ?S) = Some InvalidGenotype"
    using arg_cong [OF conjunct1 [OF u4], where f = fst] u5 by simp
  have c2: "candidate_at
        (current_mapelites (snd (get_elite_content strict (Some (0, 0)) Feasible ?S)))
        (0, 0) Feasible 0 =
       Some ((cand ''a'')\<lparr>content := None, cs_string := ''aa'', ll_string := ''aa''\<rparr>)"
    using conjunct1 [OF conjunct2 [OF conjunct2 [OF u4]]] u5 by simp
  from n u0 h r g c0 c1 f h' r' g' c2 show ?thesis by (intro conjI) simp_all
qed

text \<open>
  The claim as stated: the elite of the bin (0, 0) has no cached phenotype; after its
  preview with the symmetry axis x it has the phenotype of another string than its own.
  And the download with a symmetry axis set replaces the string of the elite, from a to
  aa here, and leaves the cached phenotype, built from a, in place.
\<close>

theorem phenotype_invariant_counterexample:
  "content (cand ''a'') = None
   \<and> candidate_at demo_archive (0, 0) Feasible 0 = Some (cand ''a'')
   \<and> fst (get_elite_content recording (Some (0, 0)) Feasible
            (demo_app\<lparr>symmetry := Some ''x''\<rparr>)) = None
   \<and> map_option (consistent recording)
        (candidate_at
           (current_mapelites
              (snd (get_elite_content recording (Some (0, 0)) Feasible
                      (demo_app\<lparr>symmetry := Some ''x''\<rparr>))))
           (0, 0) Feasible 0) = Some False
   \<and> map_option cs_string (candidate_at (current_mapelites demo_built) (0, 0) Feasible 0) =
       Some ''a''
   \<and> fst (download_content recording
            (demo_built\<lparr>selected_bins := [(0, 0)], symmetry := Some ''x''\<rparr>)) = None
   \<and> map_option cs_string
        (candidate_at
           (current_mapelites
              (snd (download_content recording
                      (demo_built\<lparr>selected_bins := [(0, 0)], symmetry := Some ''x''\<rparr>))))
           (0, 0) Feasible 0) = Some ''aa''
   \<and> map_option content
        (candidate_at
           (current_mapelites
              (snd (download_content recording
                      (demo_built\<lparr>selected_bins := [(0, 0)], symmetry := Some ''x''\<rparr>))))
           (0, 0) Feasible 0) =
       Some (Some \<lparr>built_from = ''a'', s_color = None, has_hull = False,
                    air_gridmask_reset = False\<rparr>)"
proof -
  have a: "candidate_at demo_archive (0, 0) Feasible 0 = Some (cand ''a'')"
    "map_option cs_string (candidate_at (current_mapelites demo_built) (0, 0) Feasible 0) =
       Some ''a''"
    by (simp_all add: candidate_at_def demo_bins with_structure_def)
  have e: "elite_ref recording (current_mapelites (demo_app\<lparr>symmetry := Some ''x''\<rparr>))
             (0, 0) Feasible = Inr (bin_of (0, 0) [cand ''a''], 0)"
    by (simp add: demo_elite_ref)
  have s: "symmetry (demo_app\<lparr>symmetry := Some ''x''\<rparr>) = Some ''x''" by simp
  have g: "fst (get_elite_content recording (Some (0, 0)) Feasible
            (demo_app\<lparr>symmetry := Some ''x''\<rparr>)) = None"
    by (simp add: get_elite_content_symmetric [OF s e] demo_preview_returns)
  have d: "fst (download_content recording
            (demo_built\<lparr>selected_bins := [(0, 0)], symmetry := Some ''x''\<rparr>)) = None"
    by (simp add: demo_download_returns)
  show ?thesis
    by (simp add: a g d demo_previewed demo_downloaded symmetric_preview_consistent
        demo_preview_returns with_structure_def)
qed

subsection \<open>Recolouring\<close>



subsection \<open>The invariant of the selection\<close>

lemma qnt_inv_I: "selected_bins st = [] \<Longrightarrow> qnt_inv st"
  by (simp add: qnt_inv_def)

lemma enforce_qnt_update_candidate [simp]:
  "enforce_qnt (update_candidate ij pop k f m) = enforce_qnt m"
  by (simp add: update_candidate_def split: option.splits)

lemma get_elite_content_qnt:
  "enforce_qnt (current_mapelites (snd (get_elite_content X idx pop st))) =
     enforce_qnt (current_mapelites st)"
  "selected_bins (snd (get_elite_content X idx pop st)) = selected_bins st"
  by (auto simp: get_elite_content_def Let_def split: option.splits sum.splits prod.splits)

lemma qnt_inv_get_elite_content:
  "qnt_inv (snd (get_elite_content X idx pop st)) = qnt_inv st"
  by (simp add: qnt_inv_def get_elite_content_qnt)

lemma qnt_inv_logger [simp]: "qnt_inv (logger l msg st) = qnt_inv st"
  by (simp add: qnt_inv_def)

lemma qnt_inv_cb_update_content:
  assumes "qnt_inv st"
  shows "qnt_inv (snd (cb_update_content X kw st))"
proof -
  let ?i = "fst (kw_click kw)" and ?j = "snd (kw_click kw)"
  let ?pop = "pop_of_name (kw_pop_name kw)"
  obtain r st1 where g: "get_elite_content X (Some (?j, ?i)) ?pop st = (r, st1)"
    by (cases "get_elite_content X (Some (?j, ?i)) ?pop st")
  have q1: "qnt_inv st1"
    using qnt_inv_get_elite_content [of X "Some (?j, ?i)" ?pop st] g assms by simp
  have sel: "qnt_inv (st1\<lparr>selected_bins := [(?i, ?j)]\<rparr>)"
    by (simp add: qnt_inv_def)
  have off: "\<not> enforce_qnt (current_mapelites st1) \<Longrightarrow> qnt_inv (st1\<lparr>selected_bins := s\<rparr>)" for s
    by (simp add: qnt_inv_def)
  show ?thesis
    using assms q1 sel off g
    by (cases r)
       (auto simp: cb_update_content_def Let_def split: option.splits sum.splits)
qed


lemma qnt_inv_cb_selection: "qnt_inv (cb_selection st)"
  by (simp add: cb_selection_def Let_def qnt_inv_def)

lemma cb_selection_trims:
  assumes "\<not> enforce_qnt (current_mapelites st)" and "selected_bins st \<noteq> []"
  shows "selected_bins (cb_selection st) = [last (selected_bins st)]"
    and "enforce_qnt (current_mapelites (cb_selection st))"
  using assms by (simp_all add: cb_selection_def Let_def)

lemma qnt_inv_emptied:
  "qnt_inv (cb_clear_selection st)"
  "qnt_inv (cb_reset X st)"
  "qnt_inv (cb_subdivide X st)"
  "qnt_inv (cb_population_upload X kw st)"
  by (simp_all add: qnt_inv_def cb_clear_selection_def cb_reset_def cb_subdivide_def
      cb_population_upload_def Let_def update_base_color_def)

lemma qnt_inv_cb_apply_symmetry:
  "qnt_inv st \<Longrightarrow> qnt_inv (snd (cb_apply_symmetry event_trig st))"
  by (simp add: qnt_inv_def cb_apply_symmetry_def Let_def)

lemma qnt_inv_cb_toggle_unsafe_mode:
  "qnt_inv st \<Longrightarrow> qnt_inv (snd (cb_toggle_unsafe_mode X kw st))"
  by (simp add: qnt_inv_def cb_toggle_unsafe_mode_def Let_def split: option.splits)


lemma keeps_qnt_iterations:
  "keeps_qnt X \<Longrightarrow> enforce_qnt ((emitter_step X gen ^^ n) m) = enforce_qnt m"
  by (induction n) (simp_all add: keeps_qnt_def)

lemma keeps_qnt_step_phases:
  assumes "keeps_qnt X"
  shows "enforce_qnt (current_mapelites (step_phases X selected gen only_emitter p st)) =
           enforce_qnt (current_mapelites st)"
  using assms keeps_qnt_iterations [OF assms]
  by (simp add: step_phases_archive phase_final_def phase_emitter_def phase_human_def
      phase_clear_def Let_def keeps_qnt_def)

lemma keeps_qnt_apply_step:
  assumes "keeps_qnt X"
  shows "enforce_qnt (current_mapelites (snd (apply_step X selected gen only_emitter st))) =
           enforce_qnt (current_mapelites st)"
  using keeps_qnt_step_phases [OF assms]
  by (simp add: apply_step_def step_body_def Let_def split: prod.splits option.splits)

lemma selected_bins_apply_step:
  "selected_bins (snd (apply_step X selected gen only_emitter st)) = selected_bins st"
  using same_settings_apply_step [of st X selected gen only_emitter]
  by (simp add: same_settings_def)

lemma preview_after_step_qnt:
  "qnt_inv (snd (preview_after_step X pn st)) = qnt_inv st"
  by (simp add: preview_after_step_def Let_def qnt_inv_get_elite_content split: option.splits)

lemma qnt_inv_shorter:
  "qnt_inv st \<Longrightarrow> length s \<le> length (selected_bins st) \<Longrightarrow> qnt_inv (st\<lparr>selected_bins := s\<rparr>)"
  by (auto simp: qnt_inv_def)

lemma qnt_inv_logged_result:
  "qnt_inv (snd (case x of (Some e, st4) \<Rightarrow> (Some e, st4)
                         | (None, st4) \<Rightarrow> (None, logger l msg st4))) = qnt_inv (snd x)"
  by (auto split: prod.splits option.splits)

lemma qnt_inv_cb_apply_step:
  assumes "keeps_qnt X" and "qnt_inv st"
  shows "qnt_inv (snd (cb_apply_step X event_trig pn st))"
proof -
  let ?ap = "apply_step X (switch (selected_bins st)) (gen_counter st)
               (event_trig = Some ''rand-step-btn'' \<and> app_mode st = USER) st"
  obtain r st1 where ap: "?ap = (r, st1)" by (cases ?ap)
  have q1: "qnt_inv st1"
    using keeps_qnt_apply_step [OF assms(1), of "switch (selected_bins st)" "gen_counter st"
            "event_trig = Some ''rand-step-btn'' \<and> app_mode st = USER" st]
      selected_bins_apply_step [of X "switch (selected_bins st)" "gen_counter st"
            "event_trig = Some ''rand-step-btn'' \<and> app_mode st = USER" st]
      assms(2) ap
    by (simp add: qnt_inv_def)
  have q2: "qnt_inv (st1\<lparr>gen_counter := g\<rparr>)" for g
    using q1 by (simp add: qnt_inv_def)
  have q3: "qnt_inv (st1\<lparr>gen_counter := g,
                         selected_bins := prune_selection X (current_mapelites st1) (selected_bins st1)\<rparr>)"
    for g
    using q1 by (auto simp: qnt_inv_def prune_selection_def intro: le_trans [OF length_filter_le])
  show ?thesis
  proof (cases r)
    case (Inl e)
    then show ?thesis using ap q1 assms(2) by (simp add: cb_apply_step_def)
  next
    case (Inr res)
    show ?thesis
    proof (cases res)
      case False
      then show ?thesis using ap Inr q1 assms(2) by (simp add: cb_apply_step_def)
    next
      case True
      show ?thesis
      proof (cases "selected_bins st1 = []")
        case e: True
        then show ?thesis
          using ap Inr True assms(2) q2
          by (simp add: cb_apply_step_def Let_def)
      next
        case ne: False
        show ?thesis
        proof (cases "prune_selection X (current_mapelites st1) (selected_bins st1) = []")
          case p: True
          then show ?thesis
            using ap Inr True assms(2) ne q3
            by (simp add: cb_apply_step_def Let_def)
        next
          case p: False
          then show ?thesis
            using ap Inr True assms(2) ne q3
            by (simp add: cb_apply_step_def Let_def qnt_inv_logged_result
                preview_after_step_qnt)
        qed
      qed
    qed
  qed
qed

lemma format_step_length:
  "length (fst (format_step X m acc b)) \<le> length (fst acc)"
  by (simp add: format_step_def length_remove1)

lemma format_fold_length:
  "length (fst (foldl (format_step X m) acc bs)) \<le> length (fst acc)"
proof (induction bs arbitrary: acc)
  case Nil
  show ?case by simp
next
  case (Cons b bs)
  have "length (fst (foldl (format_step X m) (format_step X m acc b) bs))
          \<le> length (fst (format_step X m acc b))" by (rule Cons.IH)
  also have "\<dots> \<le> length (fst acc)" by (rule format_step_length)
  finally show ?case by simp
qed

lemma format_bins_length:
  "format_bins X m sel prefix = Inr (sel', str) \<Longrightarrow> length sel' \<le> length sel"
  using format_fold_length
          [of X m "(sel, prefix)" "map (\<lambda>ij. the (bin_at (bins m) (snd ij, fst ij))) sel"]
  by (auto simp: format_bins_def split: if_splits)

lemma qnt_inv_release [simp]: "qnt_inv (release st) = qnt_inv st"
  by (simp add: qnt_inv_def release_def)

lemma qnt_inv_finish_callback:
  assumes "qnt_inv st"
  shows "qnt_inv (snd (finish_callback X kw u st))"
proof (cases "format_bins X (current_mapelites st) (selected_bins st) ''Selected bin(s):''")
  case (Inl e)
  then show ?thesis using assms by (simp add: finish_callback_def Let_def)
next
  case (Inr p)
  obtain sel str where p: "p = (sel, str)" by (cases p)
  let ?st1 = "st\<lparr>selected_bins := sel\<rparr>"
  have q1: "qnt_inv ?st1"
    using assms format_bins_length [OF Inr [unfolded p]] by (rule qnt_inv_shorter)
  have q2: "qnt_inv (snd (get_elite_content X idx pop ?st1))" for idx pop
    using q1 by (simp only: qnt_inv_get_elite_content)
  have "qnt_inv (snd (case get_elite_content X idx pop ?st1 of
                        (Some e, st2) \<Rightarrow> (Inl e, st2)
                      | (None, st2) \<Rightarrow> (Inr out, release st2)))" for idx pop
    and out :: "(string \<times> 'b out) list"
    using q2 [of idx pop] by (auto split: prod.splits option.splits)
  then show ?thesis
    using q1 by (simp add: finish_callback_def Let_def Inr p)
qed

lemma qnt_inv_entry:
  "qnt_inv (snd (resolve_event X triggered st)) = qnt_inv st"
  "qnt_inv (announce st) = qnt_inv st"
  "qnt_inv (acquire event_trig st) = qnt_inv st"
  using launch_flag_and_log_onlyD(1,3) [OF resolve_event_frame [of st X triggered]]
  by (simp_all add: qnt_inv_def announce_def acquire_def)

lemma qnt_inv_general_callback:
  assumes "\<And>h ev s. qnt_inv s \<Longrightarrow> qnt_inv (snd (run h kw ev s))" and "qnt_inv st"
  shows "qnt_inv (snd (general_callback X run triggered kw st))"
proof -
  obtain r st1 where res: "resolve_event X triggered st = (r, st1)"
    by (cases "resolve_event X triggered st")
  have q1: "qnt_inv st1" using qnt_inv_entry(1) [of X triggered st] res assms(2) by simp
  show ?thesis
  proof (cases r)
    case (Inl e)
    then show ?thesis using res q1 by (simp add: general_callback_def)
  next
    case (Inr ev)
    have q2: "qnt_inv (acquire ev (announce st1))" using q1 by (simp add: qnt_inv_entry)
    have q3: "qnt_inv (snd (dispatch run kw ev (acquire ev (announce st1))))"
      using q2 assms(1) by (simp add: dispatch_def split: option.splits)
    obtain d st3 where d: "dispatch run kw ev (acquire ev (announce st1)) = (d, st3)"
      by (cases "dispatch run kw ev (acquire ev (announce st1))")
    have "qnt_inv st3" using q3 d by simp
    then have "qnt_inv (snd (case d of Inl e \<Rightarrow> (Inl e, st3)
                                   | Inr u \<Rightarrow> finish_callback X kw u st3))"
      by (cases d) (simp_all add: qnt_inv_finish_callback)
    then show ?thesis
      using res Inr q1 d by (simp add: general_callback_def Let_def qnt_inv_entry)
  qed
qed

lemma qnt_inv_others:
  "qnt_inv (snd (cb_emitter X event_trig st)) = qnt_inv st"
  "qnt_inv (snd (cb_color X kw st)) = qnt_inv st"
  "qnt_inv (snd (download_content X st)) = qnt_inv st"
proof -
  show "qnt_inv (snd (cb_emitter X event_trig st)) = qnt_inv st"
    by (simp add: cb_emitter_def Let_def set_emitter_def qnt_inv_def split: option.splits)
  show "qnt_inv (snd (cb_color X kw st)) = qnt_inv st"
    by (simp add: cb_color_def Let_def qnt_inv_get_elite_content split: sum.splits)
       (simp add: qnt_inv_def update_base_color_def)
  show "qnt_inv (snd (download_content X st)) = qnt_inv st"
    by (simp add: download_content_def write_archive_def Let_def qnt_inv_def
        split: option.splits sum.splits prod.splits)
qed

lemma click_replaces_selection:
  assumes "enforce_qnt (current_mapelites st)"
    and "elite_ref X (current_mapelites st) (snd (kw_click kw), fst (kw_click kw))
           (pop_of_name (kw_pop_name kw)) = Inr (b, k)"
    and "(snd (kw_click kw), fst (kw_click kw)) \<in> set (map bin_idx (valid_bins X (current_mapelites st)))"
    and "fst (get_elite_content X (Some (snd (kw_click kw), fst (kw_click kw)))
                (pop_of_name (kw_pop_name kw)) st) = None"
  shows "selected_bins (snd (cb_update_content X kw st)) = [kw_click kw]"
proof -
  let ?ji = "(snd (kw_click kw), fst (kw_click kw))" and ?pop = "pop_of_name (kw_pop_name kw)"
  have b: "bin_at (bins (current_mapelites st)) ?ji = Some b" "non_empty b ?pop"
    using elite_refD(1,2) [OF assms(2)] by (auto simp: non_empty_def)
  obtain st1 where g: "get_elite_content X (Some ?ji) ?pop st = (None, st1)"
    using assms(4) by (cases "get_elite_content X (Some ?ji) ?pop st") auto
  have e: "enforce_qnt (current_mapelites st1)"
    using get_elite_content_qnt(1) [of X "Some ?ji" ?pop st] g assms(1) by simp
  show ?thesis
    using b g e assms(3)
    by (simp add: cb_update_content_def Let_def split: sum.splits prod.splits)
qed

lemma click_raises_keeps_selection:
  assumes "fst (get_elite_content X (Some (snd (kw_click kw), fst (kw_click kw)))
                  (pop_of_name (kw_pop_name kw)) st) \<noteq> None"
  shows "selected_bins (snd (cb_update_content X kw st)) = selected_bins st"
proof -
  let ?ji = "(snd (kw_click kw), fst (kw_click kw))" and ?pop = "pop_of_name (kw_pop_name kw)"
  obtain e st1 where g: "get_elite_content X (Some ?ji) ?pop st = (Some e, st1)"
    using assms by (cases "get_elite_content X (Some ?ji) ?pop st") auto
  have "selected_bins st1 = selected_bins st"
    using get_elite_content_qnt(2) [of X "Some ?ji" ?pop st] g by simp
  then show ?thesis
    using g by (simp add: cb_update_content_def Let_def split: option.splits)
qed

lemma keeps_qnt_recording: "keeps_qnt recording"
  by (simp add: keeps_qnt_def recording_def)

lemma demo_built_fields [simp]:
  "selected_bins demo_built = []"
  "symmetry demo_built = None"
  "enforce_qnt (current_mapelites demo_built)"
  by (simp_all add: demo_built_def demo_app_def demo_archive_def)

lemma demo_built_valid_bins:
  "map bin_idx (valid_bins recording (current_mapelites demo_built)) = [(0, 0), (1, 1)]"
  by (simp add: recording_def demo_built_def demo_archive_def bin_of_def non_empty_def
      members_def cand_def)

lemma demo_built_preview:
  "fst (get_elite_content recording (Some (0, 0)) Feasible demo_built) = None"
  by (simp add: get_elite_content_def demo_elite_ref read_content_def with_structure_def)

lemma demo_app_preview:
  "fst (get_elite_content recording (Some (0, 0)) Feasible demo_app) = Some AttributeError"
proof -
  have "symmetry demo_app = None" by (simp add: demo_app_def)
  then show ?thesis
    using demo_elite_ref(1)
    by (simp add: get_elite_content_def read_content_def)
qed

subsection \<open>Selections of more than one bin\<close>



lemma apply_step_recording:
  assumes "emitter_steps st \<noteq> - 1" and "selection_valid recording (current_mapelites st) sel"
  shows "fst (apply_step recording sel gen oe st) = Inr True"
proof -
  have "1 + emitter_steps st \<noteq> 0" using assms(1) by arith
  then show ?thesis
    using assms(2) by (simp add: apply_step_def Let_def step_body_recording)
qed





text \<open>
  C7: the invariant \<open>qnt_inv\<close>, with quantity-enforcement on the selection holds at
  most one bin, is kept by every handler of webapp.py that writes the selection or the
  flag (the click on the heatmap, the toggle of the single bin selection, the clearing
  of the selection, the step, the reset, the subdivision, the symmetry menu, the upload
  of a population, the safe mode), by the handlers of the emitter and of the colour and
  by the download, by what the general callback does after a handler, and so by the
  general callback for handlers that keep it. For the step this needs that the methods
  of the archive it calls do not write the flag. With quantity-enforcement on, a click
  on a valid bin that has an elite, whose preview returns, replaces the selection by
  that bin; a click whose preview raises leaves the selection as it was; toggling
  quantity-enforcement on trims a selection to its last bin.
\<close>

theorem single_bin_selection_invariant:
  assumes "qnt_inv st"
  shows "qnt_inv (snd (cb_update_content X kw st))
       \<and> qnt_inv (cb_selection st)
       \<and> qnt_inv (cb_clear_selection st)
       \<and> (keeps_qnt X \<longrightarrow> qnt_inv (snd (cb_apply_step X event_trig pn st)))
       \<and> qnt_inv (cb_reset X st)
       \<and> qnt_inv (cb_subdivide X st)
       \<and> qnt_inv (snd (cb_apply_symmetry event_trig st))
       \<and> qnt_inv (cb_population_upload X kw st)
       \<and> qnt_inv (snd (cb_toggle_unsafe_mode X kw st))
       \<and> qnt_inv (snd (cb_emitter X event_trig st))
       \<and> qnt_inv (snd (cb_color X kw st))
       \<and> qnt_inv (snd (download_content X st))
       \<and> qnt_inv (snd (finish_callback X kw u st))
       \<and> ((\<forall>h ev s. qnt_inv s \<longrightarrow> qnt_inv (snd (run h kw ev s))) \<longrightarrow>
            qnt_inv (snd (general_callback X run triggered kw st)))
       \<and> (enforce_qnt (current_mapelites st)
            \<and> elite_ref X (current_mapelites st) (snd (kw_click kw), fst (kw_click kw))
                 (pop_of_name (kw_pop_name kw)) = Inr (b, k)
            \<and> (snd (kw_click kw), fst (kw_click kw))
                 \<in> set (map bin_idx (valid_bins X (current_mapelites st)))
            \<and> fst (get_elite_content X (Some (snd (kw_click kw), fst (kw_click kw)))
                     (pop_of_name (kw_pop_name kw)) st) = None \<longrightarrow>
            selected_bins (snd (cb_update_content X kw st)) = [kw_click kw])
       \<and> (fst (get_elite_content X (Some (snd (kw_click kw), fst (kw_click kw)))
                 (pop_of_name (kw_pop_name kw)) st) \<noteq> None \<longrightarrow>
            selected_bins (snd (cb_update_content X kw st)) = selected_bins st)
       \<and> (\<not> enforce_qnt (current_mapelites st) \<and> selected_bins st \<noteq> [] \<longrightarrow>
            selected_bins (cb_selection st) = [last (selected_bins st)]
            \<and> enforce_qnt (current_mapelites (cb_selection st)))"
proof -
  have g: "(\<forall>h ev s. qnt_inv s \<longrightarrow> qnt_inv (snd (run h kw ev s))) \<longrightarrow>
            qnt_inv (snd (general_callback X run triggered kw st))"
    using qnt_inv_general_callback [of run kw st X triggered] assms by blast
  have c: "enforce_qnt (current_mapelites st)
            \<and> elite_ref X (current_mapelites st) (snd (kw_click kw), fst (kw_click kw))
                 (pop_of_name (kw_pop_name kw)) = Inr (b, k)
            \<and> (snd (kw_click kw), fst (kw_click kw))
                 \<in> set (map bin_idx (valid_bins X (current_mapelites st)))
            \<and> fst (get_elite_content X (Some (snd (kw_click kw), fst (kw_click kw)))
                     (pop_of_name (kw_pop_name kw)) st) = None \<longrightarrow>
            selected_bins (snd (cb_update_content X kw st)) = [kw_click kw]"
    using click_replaces_selection [of st X kw b k] by blast
  have r: "fst (get_elite_content X (Some (snd (kw_click kw), fst (kw_click kw)))
                 (pop_of_name (kw_pop_name kw)) st) \<noteq> None \<longrightarrow>
            selected_bins (snd (cb_update_content X kw st)) = selected_bins st"
    using click_raises_keeps_selection [of X kw st] by blast
  have t: "\<not> enforce_qnt (current_mapelites st) \<and> selected_bins st \<noteq> [] \<longrightarrow>
            selected_bins (cb_selection st) = [last (selected_bins st)]
            \<and> enforce_qnt (current_mapelites (cb_selection st))"
    using cb_selection_trims [of st] by blast
  have i: "qnt_inv (snd (cb_update_content X kw st))
       \<and> qnt_inv (cb_selection st)
       \<and> qnt_inv (cb_clear_selection st)
       \<and> (keeps_qnt X \<longrightarrow> qnt_inv (snd (cb_apply_step X event_trig pn st)))
       \<and> qnt_inv (cb_reset X st)
       \<and> qnt_inv (cb_subdivide X st)
       \<and> qnt_inv (snd (cb_apply_symmetry event_trig st))
       \<and> qnt_inv (cb_population_upload X kw st)
       \<and> qnt_inv (snd (cb_toggle_unsafe_mode X kw st))
       \<and> qnt_inv (snd (cb_emitter X event_trig st))
       \<and> qnt_inv (snd (cb_color X kw st))
       \<and> qnt_inv (snd (download_content X st))
       \<and> qnt_inv (snd (finish_callback X kw u st))"
    using assms
    by (simp add: qnt_inv_cb_update_content qnt_inv_cb_selection qnt_inv_emptied
        qnt_inv_cb_apply_step qnt_inv_cb_apply_symmetry qnt_inv_cb_toggle_unsafe_mode
        qnt_inv_others qnt_inv_finish_callback)
  from i g c r t show ?thesis by blast
qed

theorem single_bin_selection_invariant_witness:
  "qnt_inv demo_built \<and> keeps_qnt recording
   \<and> fst (get_elite_content recording (Some (0, 0)) Feasible demo_built) = None
   \<and> selected_bins (snd (cb_update_content recording demo_kwargs demo_built)) = [(0, 0)]
   \<and> qnt_inv (snd (cb_apply_step recording (Some ''step-btn'') ''Feasible'' demo_built))
   \<and> qnt_inv (snd (general_callback recording quiet (Some ''heatmap-plot'') demo_kwargs demo_built))
   \<and> qnt_inv demo_app
   \<and> fst (get_elite_content recording (Some (0, 0)) Feasible demo_app) = Some AttributeError
   \<and> selected_bins (snd (cb_update_content recording demo_kwargs demo_app)) = []
   \<and> qnt_inv demo_multi
   \<and> selected_bins (cb_selection demo_multi) = [(1, 1)]
   \<and> enforce_qnt (current_mapelites (cb_selection demo_multi))"
proof -
  have a: "qnt_inv demo_built" by (simp add: qnt_inv_def)
  have a': "qnt_inv demo_app" by (simp add: qnt_inv_def)
  have b: "qnt_inv demo_multi" by (simp add: qnt_inv_def demo_multi_def)
  have q: "\<forall>h ev s. qnt_inv s \<longrightarrow> qnt_inv (snd (quiet h demo_kwargs ev s))"
    by (simp add: quiet_def)
  have c: "kw_click demo_kwargs = (0, 0)" "pop_of_name (kw_pop_name demo_kwargs) = Feasible"
    by (simp_all add: demo_kwargs_def pop_of_name_def)
  have v: "(0, 0) \<in> set (map bin_idx (valid_bins recording (current_mapelites demo_built)))"
    by (simp only: demo_built_valid_bins) simp
  have m: "\<not> enforce_qnt (current_mapelites demo_multi)"
    "selected_bins demo_multi = [(0, 0), (1, 1)]"
    by (simp_all add: demo_multi_def)
  note t1 = single_bin_selection_invariant
            [OF a, of recording demo_kwargs "Some ''step-btn''" "''Feasible''" "[]" quiet
               "Some ''heatmap-plot''" "bin_of (0, 0) [with_structure (cand ''a'')]" 0]
  note t2 = single_bin_selection_invariant
            [OF a', of recording demo_kwargs "Some ''step-btn''" "''Feasible''" "[]" quiet
               "Some ''heatmap-plot''" "bin_of (0, 0) [cand ''a'']" 0]
  note t3 = single_bin_selection_invariant
            [OF b, of recording demo_kwargs "Some ''step-btn''" "''Feasible''" "[]" quiet
               "Some ''heatmap-plot''" "bin_of (0, 0) [cand ''a'']" 0]
  have s1: "selected_bins (snd (cb_update_content recording demo_kwargs demo_built)) = [(0, 0)]"
    "qnt_inv (snd (cb_apply_step recording (Some ''step-btn'') ''Feasible'' demo_built))"
    "qnt_inv (snd (general_callback recording quiet (Some ''heatmap-plot'') demo_kwargs demo_built))"
    using t1 q v keeps_qnt_recording
    by (simp_all add: c demo_elite_ref demo_built_preview del: set_map)
  have s2: "selected_bins (snd (cb_update_content recording demo_kwargs demo_app)) = []"
    using t2 by (simp add: c demo_app_preview)
  have s3: "selected_bins (cb_selection demo_multi) = [(1, 1)]"
    "enforce_qnt (current_mapelites (cb_selection demo_multi))"
    using t3 m by simp_all
  from a keeps_qnt_recording demo_built_preview s1 a' demo_app_preview s2 b s3
  show ?thesis by (intro conjI)
qed

end
